theory Spec2Isabelle
  imports Main "HOL-Library.Char_ord" "HOL-Library.List_Lexorder"
begin

section \<open>Insertion-ordered maps and strings\<close>

text \<open>
  A JavaScript \<open>Map\<close> keeps its entries in insertion order and holds one entry per
  key. It is modelled as an association list in insertion order: \<open>set\<close> on a key
  that is present replaces the value in place, \<open>set\<close> on a new key appends,
  \<open>delete\<close> drops the entry, \<open>values()\<close> iterates in insertion order.
\<close>

type_synonym ('k, 'v) js_map = "('k \<times> 'v) list"

definition map_has :: "('k, 'v) js_map \<Rightarrow> 'k \<Rightarrow> bool" where
  "map_has m k = (k \<in> set (map fst m))"

fun map_set :: "('k, 'v) js_map \<Rightarrow> 'k \<Rightarrow> 'v \<Rightarrow> ('k, 'v) js_map" where
  "map_set [] k v = [(k, v)]"
| "map_set ((k', v') # m) k v =
     (if k' = k then (k, v) # m else (k', v') # map_set m k v)"

definition map_delete :: "('k, 'v) js_map \<Rightarrow> 'k \<Rightarrow> ('k, 'v) js_map" where
  "map_delete m k = filter (\<lambda>e. fst e \<noteq> k) m"

definition map_values :: "('k, 'v) js_map \<Rightarrow> 'v list" where
  "map_values m = map snd m"

text \<open>
  \<open>text.startsWith(p)\<close> and \<open>text.substr(n)\<close> on strings, read as lists of
  code units.
\<close>

definition startsWith :: "string \<Rightarrow> string \<Rightarrow> bool" where
  "startsWith text p = (take (length p) text = p)"

definition substr :: "string \<Rightarrow> nat \<Rightarrow> string" where
  "substr text n = drop n text"

section \<open>Quick open: the handler registry (quick-open-service.ts)\<close>

text \<open>
  A handler has a prefix, a description and a model; the model is an object of the
  host, named here by a reference.
\<close>

type_synonym model_ref = nat

record QuickOpenHandler =
  prefix :: string
  description :: string
  getModel :: model_ref

text \<open>
  The disposables the registry hands out: \<open>Disposable.NULL\<close>, and the closure
  \<open>() => this.handlers.delete(handler.prefix)\<close>, which is determined by the prefix
  it deletes.
\<close>

datatype Disposable = NULL | DeleteHandler string

text \<open>
  The registry: the handler map, the collection of disposables, the default handler
  (a field that is not initialised, so \<open>undefined\<close> until
  \<open>registerDefaultHandler\<close> runs) and the warnings given to the logger.
\<close>

record QuickOpenHandlerRegistry =
  handlers :: "(string, QuickOpenHandler) js_map"
  toDispose :: "Disposable list"
  defaultHandler :: "QuickOpenHandler option"
  logger :: "string list"

definition new_registry :: QuickOpenHandlerRegistry where
  "new_registry = \<lparr>handlers = [], toDispose = [], defaultHandler = None, logger = []\<rparr>"

definition registerHandler ::
  "QuickOpenHandler \<Rightarrow> QuickOpenHandlerRegistry \<Rightarrow> Disposable \<times> QuickOpenHandlerRegistry" where
  "registerHandler handler r =
     (if map_has (handlers r) (prefix handler)
      then (NULL,
            r\<lparr>logger := logger r @
                 [''A handler with name '' @ prefix handler @ '' is already registered.'']\<rparr>)
      else (let disposable = DeleteHandler (prefix handler)
            in (disposable,
                r\<lparr>handlers := map_set (handlers r) (prefix handler) handler,
                  toDispose := toDispose r @ [disposable]\<rparr>)))"

definition registerDefaultHandler ::
  "QuickOpenHandler \<Rightarrow> QuickOpenHandlerRegistry \<Rightarrow> Disposable \<times> QuickOpenHandlerRegistry" where
  "registerDefaultHandler handler r =
     (let disposable = DeleteHandler (prefix handler)
      in (disposable,
          r\<lparr>defaultHandler := Some handler, toDispose := toDispose r @ [disposable]\<rparr>))"

definition getDefaultHandler :: "QuickOpenHandlerRegistry \<Rightarrow> QuickOpenHandler option" where
  "getDefaultHandler r = defaultHandler r"

definition getHandlers :: "QuickOpenHandlerRegistry \<Rightarrow> QuickOpenHandler list" where
  "getHandlers r = map_values (handlers r)"

text \<open>The loop of \<open>getHandlerForText\<close>: the first handler, in iteration order, whose
  prefix starts the text.\<close>

fun getHandlerForText_loop :: "QuickOpenHandler list \<Rightarrow> string \<Rightarrow> QuickOpenHandler option" where
  "getHandlerForText_loop [] text = None"
| "getHandlerForText_loop (handler # rest) text =
     (if startsWith text (prefix handler) then Some handler
      else getHandlerForText_loop rest text)"

definition getHandlerForText :: "QuickOpenHandlerRegistry \<Rightarrow> string \<Rightarrow> QuickOpenHandler option" where
  "getHandlerForText r text = getHandlerForText_loop (map_values (handlers r)) text"

text \<open>Running one disposable.\<close>

fun dispose_one :: "Disposable \<Rightarrow> QuickOpenHandlerRegistry \<Rightarrow> QuickOpenHandlerRegistry" where
  "dispose_one NULL r = r"
| "dispose_one (DeleteHandler p) r = r\<lparr>handlers := map_delete (handlers r) p\<rparr>"

text \<open>
  \<open>dispose()\<close> hands over to \<open>DisposableCollection.dispose\<close>, which is not part
  of these sources. It is taken as a parameter \<open>run\<close>: from the collection it gives
  the disposables it runs, in the order it runs them, and the collection it leaves.
\<close>

definition dispose ::
  "(Disposable list \<Rightarrow> Disposable list \<times> Disposable list) \<Rightarrow>
   QuickOpenHandlerRegistry \<Rightarrow> QuickOpenHandlerRegistry" where
  "dispose run r =
     (let (todo, left) = run (toDispose r)
      in fold dispose_one todo (r\<lparr>toDispose := left\<rparr>))"

text \<open>The operations that change a registry.\<close>

datatype registry_op =
    RegisterHandler QuickOpenHandler
  | RegisterDefaultHandler QuickOpenHandler
  | DisposeOf Disposable
  | Dispose

fun apply_op ::
  "(Disposable list \<Rightarrow> Disposable list \<times> Disposable list) \<Rightarrow>
   registry_op \<Rightarrow> QuickOpenHandlerRegistry \<Rightarrow> QuickOpenHandlerRegistry" where
  "apply_op run (RegisterHandler h) r = snd (registerHandler h r)"
| "apply_op run (RegisterDefaultHandler h) r = snd (registerDefaultHandler h r)"
| "apply_op run (DisposeOf d) r = dispose_one d r"
| "apply_op run Dispose r = dispose run r"

text \<open>
  At most one handler per prefix: the handlers of the registry have pairwise different
  prefixes, and each is stored under its own prefix.
\<close>

definition one_handler_per_prefix :: "QuickOpenHandlerRegistry \<Rightarrow> bool" where
  "one_handler_per_prefix r =
     (distinct (map prefix (getHandlers r)) \<and>
      list_all (\<lambda>e. fst e = prefix (snd e)) (handlers r))"

section \<open>Quick open: the older registry (unnamed part 0)\<close>

fun getHandlerByText_loop :: "QuickOpenHandler list \<Rightarrow> string \<Rightarrow> QuickOpenHandler option" where
  "getHandlerByText_loop [] text = None"
| "getHandlerByText_loop (handler # rest) text =
     (if startsWith text (prefix handler) then Some handler
      else getHandlerByText_loop rest text)"

definition getHandlerByText :: "QuickOpenHandlerRegistry \<Rightarrow> string \<Rightarrow> QuickOpenHandler option" where
  "getHandlerByText r text = getHandlerByText_loop (map_values (handlers r)) text"

text \<open>The help handler, with the prefix \<open>?\<close> and an empty description.\<close>

definition HelpQuickOpenHandler :: "model_ref \<Rightarrow> QuickOpenHandler" where
  "HelpQuickOpenHandler m = \<lparr>prefix = ''?'', description = [], getModel = m\<rparr>"

section \<open>Quick open: the dispatcher (QuickOpenService)\<close>

text \<open>
  The service keeps the current prefix, a field that is not initialised
  (\<open>undefined\<close> is \<open>None\<close>). What \<open>onType\<close> does besides updating it is one of:
  reopening the widget with \<open>show(lookFor)\<close>, calling \<open>onType\<close> of a handler's
  model with a search value, or failing with a \<open>TypeError\<close> when it calls
  \<open>getModel\<close> on an undefined default handler.
\<close>

record QuickOpenService =
  currentPrefix :: "string option"

datatype onType_effect =
    Show string
  | ModelOnType model_ref string
  | TypeError

definition onType ::
  "QuickOpenHandlerRegistry \<Rightarrow> QuickOpenService \<Rightarrow> string \<Rightarrow> QuickOpenService \<times> onType_effect" where
  "onType reg s lookFor =
     (let handler = getHandlerForText reg lookFor;
          handlerPrefix = (case handler of Some h \<Rightarrow> prefix h | None \<Rightarrow> [])
      in if Some handlerPrefix \<noteq> currentPrefix s
         then (s\<lparr>currentPrefix := Some handlerPrefix\<rparr>, Show lookFor)
         else (case handler of
                 Some h \<Rightarrow>
                   (let searchValue = substr lookFor (length (prefix h))
                    in (s, ModelOnType (getModel h) searchValue))
               | None \<Rightarrow>
                   (case getDefaultHandler reg of
                      Some defHandler \<Rightarrow> (s, ModelOnType (getModel defHandler) lookFor)
                    | None \<Rightarrow> (s, TypeError))))"

section \<open>JavaScript values\<close>

text \<open>
  The values a field of type \<open>any\<close> can hold, as far as this code looks at them:
  it tests them for truthiness and compares them with \<open>===\<close>. A number is an
  integer or \<open>NaN\<close>; an object (an array too) is named by a reference.
\<close>

datatype js_value =
    JUndefined
  | JNull
  | JBoolean bool
  | JNumber int
  | JNaN
  | JString string
  | JObject nat

fun truthy :: "js_value \<Rightarrow> bool" where
  "truthy JUndefined = False"
| "truthy JNull = False"
| "truthy (JBoolean b) = b"
| "truthy (JNumber n) = (n \<noteq> 0)"
| "truthy JNaN = False"
| "truthy (JString s) = (s \<noteq> [])"
| "truthy (JObject a) = True"

fun strict_eq :: "js_value \<Rightarrow> js_value \<Rightarrow> bool" where
  "strict_eq JNaN b = False"
| "strict_eq a JNaN = False"
| "strict_eq a b = (a = b)"

text \<open>The number an arithmetic expression yields: an integer, or \<open>NaN\<close>.\<close>

datatype js_number = Number int | NotANumber

section \<open>The Node.js debug adapter contribution (debug-nodejs.ts)\<close>

text \<open>
  A debug configuration has a type, a name and any further properties; the code reads
  and writes \<open>request\<close>, \<open>processId\<close> and \<open>breakpoints\<close>. The value
  \<open>{ filePatterns: ps }\<close> of \<open>breakpoints\<close> is \<open>Some ps\<close>.
\<close>

record DebugConfiguration =
  debugType :: string
  name :: string
  request :: js_value
  processId :: js_value
  breakpoints :: "string list option"

datatype error = Error string

definition provideDebugConfigurations :: "DebugConfiguration list" where
  "provideDebugConfigurations =
     [\<lparr>debugType = ''node'',
       name = ''Attach by PID'',
       request = JString ''attach'',
       processId = JString [],
       breakpoints = Some [''[.]js$'', ''[.]ts$'']\<rparr>]"

definition validateAttachConfig :: "DebugConfiguration \<Rightarrow> error + unit" where
  "validateAttachConfig config =
     (if \<not> truthy (processId config) then Inl (Error ''PID is not provided.'')
      else Inr ())"

text \<open>
  \<open>resolveDebugConfiguration\<close> writes \<open>breakpoints\<close> into the configuration it is
  given before it checks anything. The result is the configuration object as the call
  leaves it, and the outcome: the error thrown, or the configuration returned.
\<close>

definition resolveDebugConfiguration ::
  "DebugConfiguration \<Rightarrow> DebugConfiguration \<times> (error + DebugConfiguration)" where
  "resolveDebugConfiguration config0 =
     (let config = config0\<lparr>breakpoints := Some [''[.]js$'', ''[.]ts$'']\<rparr>
      in if \<not> truthy (request config)
         then (config, Inl (Error ''Debug request type is not provided.''))
         else if strict_eq (request config) (JString ''attach'')
         then (case validateAttachConfig config of
                 Inl e \<Rightarrow> (config, Inl e)
               | Inr u \<Rightarrow> (config, Inr config))
         else (config, Inr config))"

section \<open>Editor decorators (unnamed part 1)\<close>

record Position =
  line :: js_number
  character :: js_number

record Range =
  range_start :: Position
  range_end :: Position

definition Position_create :: "js_number \<Rightarrow> js_number \<Rightarrow> Position" where
  "Position_create l c = \<lparr>line = l, character = c\<rparr>"

definition Range_create :: "Position \<Rightarrow> Position \<Rightarrow> Range" where
  "Range_create s e = \<lparr>range_start = s, range_end = e\<rparr>"

record EditorDecorationOptions =
  isWholeLine :: bool
  className :: "string option"
  glyphMarginClassName :: "string option"

definition ActiveLineDecoration :: EditorDecorationOptions where
  "ActiveLineDecoration =
     \<lparr>isWholeLine = True, className = Some ''theia-debug-active-line'',
      glyphMarginClassName = None\<rparr>"

definition InactiveBreakpointDecoration :: EditorDecorationOptions where
  "InactiveBreakpointDecoration =
     \<lparr>isWholeLine = False, className = None,
      glyphMarginClassName = Some ''theia-debug-inactive-breakpoint''\<rparr>"

definition ActiveBreakpointDecoration :: EditorDecorationOptions where
  "ActiveBreakpointDecoration =
     \<lparr>isWholeLine = False, className = None,
      glyphMarginClassName = Some ''theia-debug-active-breakpoint''\<rparr>"

record EditorDecoration =
  range :: Range
  options :: EditorDecorationOptions

text \<open>
  A stack frame of the debug protocol: \<open>line\<close> and \<open>column\<close> are required
  numbers, \<open>endLine\<close> and \<open>endColumn\<close> are optional.
\<close>

record StackFrame =
  frame_line :: int
  frame_column :: int
  endLine :: "int option"
  endColumn :: "int option"

text \<open>An optional number used as a condition: present, and not zero.\<close>

fun truthy_opt :: "int option \<Rightarrow> bool" where
  "truthy_opt None = False"
| "truthy_opt (Some n) = (n \<noteq> 0)"

definition ActiveLineDecorator_toRange :: "StackFrame \<Rightarrow> Range" where
  "ActiveLineDecorator_toRange frame =
     (let start = Position_create
            (Number (frame_line frame - 1))
            (if truthy_opt (endColumn frame) then Number (frame_column frame - 1) else Number 0);
          end' = Position_create
            (case endLine frame of
               Some el \<Rightarrow> if el \<noteq> 0 then Number (el - 1) else Number (frame_line frame - 1)
             | None \<Rightarrow> Number (frame_line frame - 1))
            (case endColumn frame of
               Some ec \<Rightarrow> if ec \<noteq> 0 then Number (ec - 1) else Number 0
             | None \<Rightarrow> Number 0)
      in Range_create start end')"

text \<open>
  An aggregated breakpoint: the breakpoint as it was set (\<open>origin\<close>: a source, a
  function or an exception breakpoint), its source, and the response of the debug
  adapter that created it, if any.
\<close>

datatype origin =
    SourceBreakpoint int "int option"
  | FunctionBreakpoint string
  | ExceptionBreakpoint string

record Source =
  source_name :: "string option"
  source_path :: "string option"

record Breakpoint =
  verified :: bool

record AggregatedBreakpoint =
  source :: "Source option"
  created :: "Breakpoint option"
  sessionId :: "string option"
  origin :: origin

text \<open>
  Reading \<open>line\<close> of an origin that has been cast to a source breakpoint: the
  other kinds have no such property, and \<open>undefined - 1\<close> is \<open>NaN\<close>.
\<close>

fun origin_line :: "origin \<Rightarrow> int option" where
  "origin_line (SourceBreakpoint l c) = Some l"
| "origin_line (FunctionBreakpoint n) = None"
| "origin_line (ExceptionBreakpoint f) = None"

fun minus_one :: "int option \<Rightarrow> js_number" where
  "minus_one (Some n) = Number (n - 1)"
| "minus_one None = NotANumber"

definition BreakpointDecorator_toRange :: "origin \<Rightarrow> Range" where
  "BreakpointDecorator_toRange breakpoint =
     Range_create (Position_create (minus_one (origin_line breakpoint)) (Number 0))
                  (Position_create (minus_one (origin_line breakpoint)) (Number 0))"

record TextEditor =
  uri :: string

text \<open>
  \<open>BreakpointStorage.get\<close> and the predicates \<open>DebugUtils.isSourceBreakpoint\<close>
  and \<open>DebugUtils.checkUri\<close> are not part of these sources; they are parameters.
  The result lists the calls of \<open>setDecorations\<close>: the editor and the decorations
  it is given.
\<close>

definition BreakpointDecorator_applyDecorations ::
  "((AggregatedBreakpoint \<Rightarrow> bool) \<Rightarrow> AggregatedBreakpoint list) \<Rightarrow>
   (AggregatedBreakpoint \<Rightarrow> bool) \<Rightarrow>
   (AggregatedBreakpoint \<Rightarrow> string \<Rightarrow> bool) \<Rightarrow>
   TextEditor list \<Rightarrow> TextEditor option \<Rightarrow> (TextEditor \<times> EditorDecoration list) list" where
  "BreakpointDecorator_applyDecorations storage_get isSourceBreakpoint checkUri all editor =
     (let editors = (case editor of Some e \<Rightarrow> [e] | None \<Rightarrow> all)
      in map (\<lambda>e.
           (e, map (\<lambda>b.
                  \<lparr>range = BreakpointDecorator_toRange (origin b),
                   options = (if (case created b of Some c \<Rightarrow> verified c | None \<Rightarrow> False)
                              then ActiveBreakpointDecoration
                              else InactiveBreakpointDecoration)\<rparr>)
                (filter (\<lambda>b. checkUri b (uri e)) (storage_get isSourceBreakpoint))))
         editors)"

section \<open>The breakpoints widget (debug-breakpoints-widget.ts)\<close>

text \<open>
  \<open>Array.prototype.sort()\<close> without a comparator orders the elements by their
  string conversions and is stable. A breakpoint is a plain object, whose string
  conversion is \<open>[object Object]\<close>.
\<close>

definition toString_object :: "'a \<Rightarrow> string" where
  "toString_object x = ''[object Object]''"

definition js_sort :: "('a \<Rightarrow> string) \<Rightarrow> 'a list \<Rightarrow> 'a list" where
  "js_sort to_string xs = sort_key to_string xs"

record DebugSession =
  session_sessionId :: string

text \<open>
  The breakpoint manager is not part of these sources: its \<open>get\<close> and
  \<open>getAll\<close> are the two fields of a record.
\<close>

record BreakpointsManager =
  manager_get :: "string \<Rightarrow> AggregatedBreakpoint list"
  manager_getAll :: "AggregatedBreakpoint list"

record DebugBreakpointsWidget =
  widget_breakpoints :: "AggregatedBreakpoint list"
  debugSession :: "DebugSession option"
  updates :: nat

definition new_DebugBreakpointsWidget :: "DebugSession option \<Rightarrow> DebugBreakpointsWidget" where
  "new_DebugBreakpointsWidget session =
     \<lparr>widget_breakpoints = [], debugSession = session, updates = 0\<rparr>"

definition refreshBreakpoints ::
  "BreakpointsManager \<Rightarrow> DebugBreakpointsWidget \<Rightarrow> DebugBreakpointsWidget" where
  "refreshBreakpoints breakpointManager w =
     (let w1 = (case debugSession w of
                  Some session \<Rightarrow>
                    w\<lparr>widget_breakpoints :=
                        manager_get breakpointManager (session_sessionId session)\<rparr>
                | None \<Rightarrow> w\<lparr>widget_breakpoints := manager_getAll breakpointManager\<rparr>);
          w2 = w1\<lparr>widget_breakpoints := js_sort toString_object (widget_breakpoints w1)\<rparr>
      in w2\<lparr>updates := updates w2 + 1\<rparr>)"

section \<open>The preferences menu factory (preferences-menu-factory.ts)\<close>

text \<open>
  A property of the preference schema: the code reads \<open>enum\<close> (a list of strings,
  when present), \<open>type\<close> and \<open>default\<close>.
\<close>

record PreferenceProperty =
  property_enum :: "string list option"
  property_type :: js_value
  property_default :: js_value

text \<open>
  A command of the menu: its label, its icon class and the two arguments it passes to
  \<open>execute\<close> when it runs. A menu is its command registry and its items, each the
  identifier of a command.
\<close>

record Command =
  label :: string
  iconClass :: "string option"
  execute :: "string \<times> js_value"

record Menu =
  commands :: "(string, Command) js_map"
  items :: "string list"

definition new_Menu :: Menu where
  "new_Menu = \<lparr>commands = [], items = []\<rparr>"

definition addCommand :: "string \<Rightarrow> Command \<Rightarrow> Menu \<Rightarrow> Menu" where
  "addCommand commandId c menu = menu\<lparr>commands := map_set (commands menu) commandId c\<rparr>"

definition addItem :: "string \<Rightarrow> Menu \<Rightarrow> Menu" where
  "addItem commandId menu = menu\<lparr>items := items menu @ [commandId]\<rparr>"

definition check_icon :: "bool \<Rightarrow> string option" where
  "check_icon b = Some (if b then ''fa fa-check'' else [])"

text \<open>The body of the loop over the values of \<open>enum\<close>.\<close>

definition enum_step ::
  "string \<Rightarrow> js_value \<Rightarrow> PreferenceProperty \<Rightarrow> string \<Rightarrow> Menu \<Rightarrow> Menu" where
  "enum_step ident savedPreference property enumValue menu =
     (let commandId = ident @ ''-'' @ enumValue
      in if \<not> map_has (commands menu) commandId
         then addItem commandId
                (addCommand commandId
                   \<lparr>label = enumValue,
                    iconClass = check_icon
                      (strict_eq savedPreference (JString enumValue) \<or>
                       \<not> truthy savedPreference \<and>
                       strict_eq (property_default property) (JString enumValue)),
                    execute = (ident, JString enumValue)\<rparr>
                   menu)
         else menu)"

definition createPreferenceContextMenu ::
  "string \<Rightarrow> js_value \<Rightarrow> PreferenceProperty option \<Rightarrow> Menu" where
  "createPreferenceContextMenu ident savedPreference property_opt =
     (case property_opt of
        None \<Rightarrow> new_Menu
      | Some property \<Rightarrow>
          (case property_enum property of
             Some enumConst \<Rightarrow>
               fold (enum_step ident savedPreference property) enumConst new_Menu
           | None \<Rightarrow>
               if truthy (property_type property) \<and>
                  strict_eq (property_type property) (JString ''boolean'')
               then
                 (let commandTrue = ident @ ''-true'';
                      m1 = addItem commandTrue
                             (addCommand commandTrue
                                \<lparr>label = ''true'',
                                 iconClass = check_icon
                                   (strict_eq savedPreference (JString ''true'') \<or>
                                    \<not> truthy savedPreference \<and>
                                    strict_eq (property_default property) (JBoolean True)),
                                 execute = (ident, JString ''true'')\<rparr>
                                new_Menu);
                      commandFalse = ident @ ''-false''
                  in addItem commandFalse
                       (addCommand commandFalse
                          \<lparr>label = ''false'',
                           iconClass = check_icon
                             (strict_eq savedPreference (JString ''false'') \<or>
                              \<not> truthy savedPreference \<and>
                              strict_eq (property_default property) (JBoolean False)),
                           execute = (ident, JString ''false'')\<rparr>
                          m1))
               else
                 (let commandId = ident @ ''-stringValue''
                  in addItem commandId
                       (addCommand commandId
                          \<lparr>label = ''Add Value'',
                           iconClass = None,
                           execute = (ident,
                             if truthy (property_default property)
                             then property_default property else JString [])\<rparr>
                          new_Menu))))"

text \<open>The command an item of the menu runs, and the commands of all items in order.\<close>

definition item_command :: "Menu \<Rightarrow> string \<Rightarrow> Command option" where
  "item_command menu commandId = map_of (commands menu) commandId"

definition menu_commands :: "Menu \<Rightarrow> Command option list" where
  "menu_commands menu = map (item_command menu) (items menu)"

section \<open>The marker tree (marker-tree.ts)\<close>

text \<open>
  The nodes below the root: a per-file node (\<open>MarkerInfoNode\<close>) with the
  identifiers of its children and its number of markers, and a leaf
  (\<open>MarkerNode\<close>) with its marker. A URI is the string \<open>uri.toString()\<close> gives, which
  is also the identifier of its per-file node. \<open>MarkerInfoNode.is\<close> and
  \<open>MarkerNode.is\<close> tell the two kinds apart by the properties they have.
\<close>

datatype 'm tree_node =
    MarkerInfoNode (node_id: string) (node_uri: string) (node_name: string) (icon: string)
      (node_description: string) (children: "string list") (numberOfMarkers: nat)
      (expanded: bool) (selected: bool)
  | MarkerNode (node_id: string) (node_name: string) (node_parent: string) (selected: bool)
      (node_uri: string) (marker: 'm)

fun MarkerInfoNode_is :: "'m tree_node option \<Rightarrow> bool" where
  "MarkerInfoNode_is (Some (MarkerInfoNode i u n ic d cs k e s)) = True"
| "MarkerInfoNode_is other = False"

fun MarkerNode_is :: "'m tree_node option \<Rightarrow> bool" where
  "MarkerNode_is (Some (MarkerNode i n p s u m)) = True"
| "MarkerNode_is other = False"

text \<open>
  The tree: the children of the root (the identifiers of the per-file nodes, in
  order), the nodes the tree knows by identifier, and the number of change events
  fired. The root is kept apart from the nodes: the code below only asks of a node it
  looks up whether it is a per-file node or a leaf, and the root is neither.
\<close>

record 'm MarkerTree =
  root_children :: "string list"
  nodes :: "string \<rightharpoonup> 'm tree_node"
  changed :: nat

definition new_MarkerTree :: "'m MarkerTree" where
  "new_MarkerTree = \<lparr>root_children = [], nodes = Map.empty, changed = 0\<rparr>"

text \<open>
  What the tree is given: the marker store (\<open>markerManager.findMarkers\<close>, by URI),
  the label provider and the parent of a URI.
\<close>

record 'm MarkerEnv =
  findMarkers :: "string \<Rightarrow> 'm list"
  getName :: "string \<Rightarrow> string"
  getIcon :: "string \<Rightarrow> string"
  getLongName :: "string \<Rightarrow> string"
  uri_parent :: "string \<Rightarrow> string"

text \<open>
  Modelled from the spec: \<open>TreeImpl\<close> of the core package (\<open>getNode\<close>,
  \<open>addChild\<close>, \<open>removeChild\<close>, \<open>removeNode\<close>, \<open>setChildren\<close>,
  \<open>fireChanged\<close>) is not part of these sources. The tree maps identifiers to
  nodes: \<open>getNode\<close> looks an identifier up.
\<close>

definition getNode :: "'m MarkerTree \<Rightarrow> string \<Rightarrow> 'm tree_node option" where
  "getNode t ident = nodes t ident"

text \<open>
  Modelled from the spec: \<open>TreeImpl.fireChanged\<close> is missing; it fires one change
  event.
\<close>

definition fireChanged :: "'m MarkerTree \<Rightarrow> 'm MarkerTree" where
  "fireChanged t = t\<lparr>changed := changed t + 1\<rparr>"

text \<open>
  Modelled from the spec: \<open>TreeImpl.removeChild\<close> is missing; it takes the child
  with the identifier of the given node out of the children of its parent, here the root.
\<close>

definition removeChild :: "'m MarkerTree \<Rightarrow> 'm tree_node \<Rightarrow> 'm MarkerTree" where
  "removeChild t child = t\<lparr>root_children := remove1 (node_id child) (root_children t)\<rparr>"

text \<open>
  Modelled from the spec: \<open>TreeImpl.addChild\<close> is missing; it makes the node a
  child of its parent, here the root: in the place of the child with the same
  identifier when there is one, at the end otherwise.
\<close>

definition addChild :: "'m MarkerTree \<Rightarrow> 'm tree_node \<Rightarrow> 'm MarkerTree" where
  "addChild t child =
     (if node_id child \<in> set (root_children t) then t
      else t\<lparr>root_children := root_children t @ [node_id child]\<rparr>)"

text \<open>
  Modelled from the spec: \<open>TreeImpl.removeNode\<close> is missing; the tree forgets the
  children of the node and the node.
\<close>

definition removeNode :: "'m MarkerTree \<Rightarrow> 'm tree_node \<Rightarrow> 'm MarkerTree" where
  "removeNode t node =
     (let forgotten = (case node of
                         MarkerInfoNode i u n ic d cs k e s \<Rightarrow> cs
                       | MarkerNode i n p s u m \<Rightarrow> [])
      in t\<lparr>nodes := (fold (\<lambda>c m. m(c := None)) forgotten (nodes t))(node_id node := None)\<rparr>)"

text \<open>
  Modelled from the spec: \<open>TreeImpl.setChildren\<close> is missing; the tree forgets the
  node and its former children, gives the node its new children, gets to know the
  node and the new children, and fires a change event.
\<close>

definition setChildren ::
  "'m MarkerTree \<Rightarrow> 'm tree_node \<Rightarrow> 'm tree_node list \<Rightarrow> 'm MarkerTree" where
  "setChildren t parent cs =
     (let t1 = removeNode t parent;
          parent' = (case parent of
                       MarkerInfoNode i u n ic d old k e s \<Rightarrow>
                         MarkerInfoNode i u n ic d (map node_id cs) k e s
                     | MarkerNode i n p s u m \<Rightarrow> parent);
          t2 = t1\<lparr>nodes := fold (\<lambda>c m. m(node_id c \<mapsto> c)) cs
                                ((nodes t1)(node_id parent' \<mapsto> parent'))\<rparr>
      in fireChanged t2)"

text \<open>The decimal numeral of an array index, as string concatenation writes it.\<close>

definition digit_char :: "nat \<Rightarrow> char" where
  "digit_char d = char_of (48 + d)"

function string_of_nat :: "nat \<Rightarrow> string" where
  "string_of_nat n =
     (if n < 10 then [digit_char n]
      else string_of_nat (n div 10) @ [digit_char (n mod 10)])"
  by pat_completeness auto
termination
  by (relation "measure id") auto

declare string_of_nat.simps [simp del]

text \<open>The functions of \<open>MarkerTree\<close> itself.\<close>

definition createMarkerInfo :: "'m MarkerEnv \<Rightarrow> string \<Rightarrow> string \<Rightarrow> 'm tree_node" where
  "createMarkerInfo env ident u =
     (let label = getName env u;
          ic = getIcon env u;
          d = getLongName env (uri_parent env u)
      in MarkerInfoNode ident u label ic d [] 0 True False)"

definition createMarkerNode ::
  "'m MarkerTree \<Rightarrow> 'm \<Rightarrow> nat \<Rightarrow> 'm tree_node \<Rightarrow> 'm tree_node \<times> 'm MarkerTree" where
  "createMarkerNode t mk index parent =
     (let ident = node_id parent @ ''_'' @ string_of_nat index;
          existing = getNode t ident
      in (case existing of
            Some (MarkerNode i n p s u m) \<Rightarrow>
              (let existing' = MarkerNode i n p s u mk
               in (existing', t\<lparr>nodes := (nodes t)(ident \<mapsto> existing')\<rparr>))
          | other \<Rightarrow>
              (MarkerNode ident ''marker'' (node_id parent) False (node_uri parent) mk, t)))"

fun getMarkerNodes_from ::
  "'m MarkerTree \<Rightarrow> 'm tree_node \<Rightarrow> nat \<Rightarrow> 'm list \<Rightarrow> 'm tree_node list \<times> 'm MarkerTree" where
  "getMarkerNodes_from t parent index [] = ([], t)"
| "getMarkerNodes_from t parent index (mk # markers) =
     (let (c, t1) = createMarkerNode t mk index parent;
          (cs, t2) = getMarkerNodes_from t1 parent (Suc index) markers
      in (c # cs, t2))"

definition getMarkerNodes ::
  "'m MarkerTree \<Rightarrow> 'm tree_node \<Rightarrow> 'm list \<Rightarrow> 'm tree_node list \<times> 'm MarkerTree" where
  "getMarkerNodes t parent markers = getMarkerNodes_from t parent 0 markers"

text \<open>
  \<open>refreshMarkerInfo\<close>. The call reads the node and the markers of the URI first.
  With no markers, or with the per-file node already there, it runs through without a
  pause. When it has to create the per-file node it awaits \<open>createMarkerInfo\<close>,
  and other events run before it goes on: \<open>during\<close> is what they do to the tree
  in the meantime. The call then goes on, on the tree as they left it, with the
  markers it read at its start.
\<close>

definition refreshMarkerInfo ::
  "'m MarkerEnv \<Rightarrow> ('m MarkerTree \<Rightarrow> 'm MarkerTree) \<Rightarrow> 'm MarkerTree \<Rightarrow> string \<Rightarrow>
   'm MarkerTree" where
  "refreshMarkerInfo env during t u =
     (let ident = u;
          existing = getNode t ident;
          markers = findMarkers env u
      in if length markers \<le> 0
         then (case existing of
                 Some (MarkerInfoNode i u' n ic d cs k e s) \<Rightarrow>
                   fireChanged
                     (removeNode (removeChild t (MarkerInfoNode i u' n ic d cs k e s))
                        (MarkerInfoNode i u' n ic d cs k e s))
               | other \<Rightarrow> t)
         else (let (node, t0) = (case existing of
                                   Some (MarkerInfoNode i u' n ic d cs k e s) \<Rightarrow>
                                     (MarkerInfoNode i u' n ic d cs k e s, t)
                                 | other \<Rightarrow> (createMarkerInfo env ident u, during t));
                   t1 = addChild t0 node;
                   (cs, t2) = getMarkerNodes t1 node markers;
                   node' = (case node of
                              MarkerInfoNode i u' n ic d old k e s \<Rightarrow>
                                MarkerInfoNode i u' n ic d old (length markers) e s
                            | MarkerNode i n p s u' m \<Rightarrow> node)
               in setChildren t2 node' cs))"

text \<open>
  The trees the code keeps: the root has no two children with one identifier, each
  node is known under its own identifier, and the URI of a per-file node is its
  identifier.
\<close>

definition node_ok :: "string \<Rightarrow> 'm tree_node \<Rightarrow> bool" where
  "node_ok k n = (node_id n = k \<and> (MarkerInfoNode_is (Some n) \<longrightarrow> node_uri n = k))"

definition tree_ok :: "'m MarkerTree \<Rightarrow> bool" where
  "tree_ok t =
     (distinct (root_children t) \<and> (\<forall>k n. nodes t k = Some n \<longrightarrow> node_ok k n))"

text \<open>Reading a decimal numeral back, to tell the numerals of two indices apart.\<close>

definition nat_of_string :: "string \<Rightarrow> nat" where
  "nat_of_string s = foldl (\<lambda>a c. 10 * a + (of_char c - 48)) 0 s"

text \<open>
  A marker store given as a table from URIs to their markers (none for a URI that is
  not in the table), with a label provider that names a file by its URI.
\<close>

definition table_env :: "(string \<times> string list) list \<Rightarrow> string MarkerEnv" where
  "table_env store =
     \<lparr>findMarkers = (\<lambda>u. case map_of store u of Some ms \<Rightarrow> ms | None \<Rightarrow> []),
      getName = (\<lambda>u. u), getIcon = (\<lambda>u. ''file-icon''),
      getLongName = (\<lambda>u. u), uri_parent = (\<lambda>u. ''file:///'')\<rparr>"

section \<open>Properties of the registry and the dispatcher\<close>

lemma getHandlerForText_loop_Some:
  "getHandlerForText_loop hs text = Some h \<Longrightarrow> h \<in> set hs \<and> startsWith text (prefix h)"
  by (induction hs) (auto split: if_splits)

lemma getHandlerForText_loop_None:
  "getHandlerForText_loop hs text = None \<longleftrightarrow> (\<forall>h \<in> set hs. \<not> startsWith text (prefix h))"
  by (induction hs) auto

lemma startsWith_split:
  "startsWith text p \<Longrightarrow> text = p @ substr text (length p)"
  unfolding startsWith_def substr_def
  by (metis append_take_drop_id)

lemma map_set_fresh: "\<not> map_has m k \<Longrightarrow> map_set m k v = m @ [(k, v)]"
  by (induction m) (auto simp: map_has_def)

lemma inv_registerHandler:
  "one_handler_per_prefix r \<Longrightarrow> one_handler_per_prefix (snd (registerHandler h r))"
  unfolding one_handler_per_prefix_def registerHandler_def getHandlers_def map_values_def
  by (auto simp: map_set_fresh Let_def list_all_iff map_has_def)

lemma inv_registerDefaultHandler:
  "one_handler_per_prefix r \<Longrightarrow> one_handler_per_prefix (snd (registerDefaultHandler h r))"
  by (simp add: one_handler_per_prefix_def registerDefaultHandler_def getHandlers_def Let_def)

lemma inv_dispose_one:
  "one_handler_per_prefix r \<Longrightarrow> one_handler_per_prefix (dispose_one d r)"
  unfolding one_handler_per_prefix_def getHandlers_def map_values_def
  by (cases d) (auto simp: map_delete_def list_all_iff distinct_map_filter)

lemma inv_fold_dispose_one:
  "one_handler_per_prefix r \<Longrightarrow> one_handler_per_prefix (fold dispose_one ds r)"
  by (induction ds arbitrary: r) (auto simp: inv_dispose_one)

lemma inv_toDispose_update:
  "one_handler_per_prefix (r\<lparr>toDispose := l\<rparr>) = one_handler_per_prefix r"
  by (simp add: one_handler_per_prefix_def getHandlers_def)

lemma inv_dispose:
  "one_handler_per_prefix r \<Longrightarrow> one_handler_per_prefix (dispose run r)"
  unfolding dispose_def
  by (auto simp: inv_fold_dispose_one inv_toDispose_update split: prod.splits)

lemma inv_apply_op:
  "one_handler_per_prefix r \<Longrightarrow> one_handler_per_prefix (apply_op run op r)"
  by (cases op)
     (simp_all add: inv_registerHandler inv_registerDefaultHandler inv_dispose_one inv_dispose)

text \<open>
  C1. When \<open>getHandlerForText\<close> finds a handler for the typed text (a registered
  handler whose prefix starts the text) and the prefix of that handler is the current
  prefix of the service, \<open>onType\<close> passes the rest of the text, after the prefix,
  to the model of that handler, and the current prefix stays as it is.
\<close>

theorem onType_forwards_remainder:
  assumes "getHandlerForText reg text = Some h"
    and "currentPrefix s = Some (prefix h)"
  shows "h \<in> set (getHandlers reg) \<and> startsWith text (prefix h) \<and>
         (\<exists>rest. text = prefix h @ rest \<and>
                 onType reg s text = (s, ModelOnType (getModel h) rest))"
proof -
  from assms(1) have m: "h \<in> set (getHandlers reg)" and sw: "startsWith text (prefix h)"
    using getHandlerForText_loop_Some
    unfolding getHandlerForText_def getHandlers_def by blast+
  have "onType reg s text = (s, ModelOnType (getModel h) (substr text (length (prefix h))))"
    using assms by (simp add: onType_def Let_def)
  with m sw startsWith_split[OF sw] show ?thesis by blast
qed

theorem onType_forwards_remainder_witness:
  "getHandlerForText (snd (registerHandler (HelpQuickOpenHandler 7) new_registry)) ''?open''
     = Some (HelpQuickOpenHandler 7) \<and>
   currentPrefix \<lparr>currentPrefix = Some ''?''\<rparr> = Some (prefix (HelpQuickOpenHandler 7)) \<and>
   onType (snd (registerHandler (HelpQuickOpenHandler 7) new_registry))
          \<lparr>currentPrefix = Some ''?''\<rparr> ''?open''
     = (\<lparr>currentPrefix = Some ''?''\<rparr>, ModelOnType 7 ''open'')"
proof -
  let ?reg = "snd (registerHandler (HelpQuickOpenHandler 7) new_registry)"
  have h1: "getHandlerForText ?reg ''?open'' = Some (HelpQuickOpenHandler 7)"
    by (simp add: getHandlerForText_def registerHandler_def new_registry_def map_has_def
        map_values_def HelpQuickOpenHandler_def startsWith_def Let_def)
  have h2: "currentPrefix \<lparr>currentPrefix = Some ''?''\<rparr> = Some (prefix (HelpQuickOpenHandler 7))"
    by (simp add: HelpQuickOpenHandler_def)
  from onType_forwards_remainder[OF h1 h2]
  have "onType ?reg \<lparr>currentPrefix = Some ''?''\<rparr> ''?open''
          = (\<lparr>currentPrefix = Some ''?''\<rparr>, ModelOnType 7 ''open'')"
    by (auto simp: HelpQuickOpenHandler_def)
  with h1 h2 show ?thesis by blast
qed

text \<open>
  Before \<open>registerDefaultHandler\<close> has run there is no default handler, and the
  same call fails.
\<close>

lemma onType_without_default_handler:
  assumes "\<forall>h \<in> set (getHandlers reg). \<not> startsWith text (prefix h)"
    and "currentPrefix s = Some []"
    and "getDefaultHandler reg = None"
  shows "onType reg s text = (s, TypeError)"
proof -
  have "getHandlerForText reg text = None"
    using assms(1) unfolding getHandlerForText_def getHandlers_def
    by (simp add: getHandlerForText_loop_None)
  then show ?thesis
    using assms(2,3) by (simp add: onType_def Let_def)
qed

text \<open>
  C2, as stated, fails on a registry that holds the help handler and no default
  handler. The first character typed sets the current prefix to the empty string and
  reopens the widget; at the next call no registered prefix starts the text
  \<open>main.ts\<close>, the current prefix is the empty string, and the call fails with a
  \<open>TypeError\<close> where the claim has it pass the text to a model.
\<close>

theorem onType_no_default_handler_counterexample:
  "getHandlers (snd (registerHandler (HelpQuickOpenHandler 7) new_registry))
     = [HelpQuickOpenHandler 7] \<and>
   \<not> startsWith ''main.ts'' (prefix (HelpQuickOpenHandler 7)) \<and>
   fst (onType (snd (registerHandler (HelpQuickOpenHandler 7) new_registry))
          \<lparr>currentPrefix = None\<rparr> ''m'') = \<lparr>currentPrefix = Some []\<rparr> \<and>
   getDefaultHandler (snd (registerHandler (HelpQuickOpenHandler 7) new_registry)) = None \<and>
   onType (snd (registerHandler (HelpQuickOpenHandler 7) new_registry))
          \<lparr>currentPrefix = Some []\<rparr> ''main.ts''
     = (\<lparr>currentPrefix = Some []\<rparr>, TypeError)"
  by (simp add: onType_def getHandlerForText_def getHandlers_def getDefaultHandler_def
      registerHandler_def new_registry_def map_has_def map_values_def
      HelpQuickOpenHandler_def startsWith_def Let_def)

text \<open>
  C2, amended. When no registered handler has a prefix that starts the typed text, the
  current prefix of the service is already the empty string and a default handler has
  been registered, \<open>onType\<close> passes the whole text, unchanged, to the model of the
  default handler.
\<close>

theorem onType_falls_back_to_default:
  assumes "\<forall>h \<in> set (getHandlers reg). \<not> startsWith text (prefix h)"
    and "currentPrefix s = Some []"
    and "getDefaultHandler reg = Some d"
  shows "onType reg s text = (s, ModelOnType (getModel d) text)"
proof -
  have "getHandlerForText reg text = None"
    using assms(1) unfolding getHandlerForText_def getHandlers_def
    by (simp add: getHandlerForText_loop_None)
  then show ?thesis
    using assms(2,3) by (simp add: onType_def Let_def)
qed

theorem onType_falls_back_to_default_witness:
  "getHandlers
     (snd (registerDefaultHandler \<lparr>prefix = [], description = ''files'', getModel = 3\<rparr>
        (snd (registerHandler (HelpQuickOpenHandler 7) new_registry))))
     = [HelpQuickOpenHandler 7] \<and>
   \<not> startsWith ''main.ts'' (prefix (HelpQuickOpenHandler 7)) \<and>
   onType (snd (registerDefaultHandler \<lparr>prefix = [], description = ''files'', getModel = 3\<rparr>
             (snd (registerHandler (HelpQuickOpenHandler 7) new_registry))))
          \<lparr>currentPrefix = Some []\<rparr> ''main.ts''
     = (\<lparr>currentPrefix = Some []\<rparr>, ModelOnType 3 ''main.ts'')"
proof -
  let ?reg = "snd (registerDefaultHandler \<lparr>prefix = [], description = ''files'', getModel = 3\<rparr>
                (snd (registerHandler (HelpQuickOpenHandler 7) new_registry)))"
  have hs: "getHandlers ?reg = [HelpQuickOpenHandler 7]"
    by (simp add: getHandlers_def registerDefaultHandler_def registerHandler_def
        new_registry_def map_has_def map_values_def Let_def)
  have ns: "\<not> startsWith ''main.ts'' (prefix (HelpQuickOpenHandler 7))"
    by (simp add: HelpQuickOpenHandler_def startsWith_def)
  have h1: "\<forall>h \<in> set (getHandlers ?reg). \<not> startsWith ''main.ts'' (prefix h)"
    using hs ns by simp
  have h2: "currentPrefix \<lparr>currentPrefix = Some []\<rparr> = Some []"
    by simp
  have h3: "getDefaultHandler ?reg = Some \<lparr>prefix = [], description = ''files'', getModel = 3\<rparr>"
    by (simp add: getDefaultHandler_def registerDefaultHandler_def Let_def)
  from onType_falls_back_to_default[OF h1 h2 h3] hs ns show ?thesis
    by simp
qed

text \<open>
  C5. The registry holds at most one handler per prefix: this holds of a new registry
  and every operation keeps it (registering a handler or a default handler, running a
  disposable the registry has handed out, disposing of the registry). Registering a
  handler whose prefix is already registered returns the null disposable and leaves
  the handler map as it was.
\<close>

theorem registry_one_handler_per_prefix:
  "one_handler_per_prefix new_registry \<and>
   (one_handler_per_prefix r \<longrightarrow> one_handler_per_prefix (apply_op run op r)) \<and>
   (map_has (handlers r) (prefix h) \<longrightarrow>
      fst (registerHandler h r) = NULL \<and>
      handlers (snd (registerHandler h r)) = handlers r)"
proof (intro conjI impI)
  show "one_handler_per_prefix new_registry"
    by (simp add: new_registry_def one_handler_per_prefix_def getHandlers_def map_values_def)
next
  assume "one_handler_per_prefix r"
  then show "one_handler_per_prefix (apply_op run op r)"
    by (rule inv_apply_op)
next
  assume "map_has (handlers r) (prefix h)"
  then show "fst (registerHandler h r) = NULL"
    by (simp add: registerHandler_def)
next
  assume "map_has (handlers r) (prefix h)"
  then show "handlers (snd (registerHandler h r)) = handlers r"
    by (simp add: registerHandler_def)
qed

theorem registry_one_handler_per_prefix_witness:
  "one_handler_per_prefix (snd (registerHandler (HelpQuickOpenHandler 7) new_registry)) \<and>
   one_handler_per_prefix
     (apply_op (\<lambda>ds. (rev ds, []))
        (RegisterHandler \<lparr>prefix = ''?'', description = ''other'', getModel = 8\<rparr>)
        (snd (registerHandler (HelpQuickOpenHandler 7) new_registry))) \<and>
   map_has (handlers (snd (registerHandler (HelpQuickOpenHandler 7) new_registry)))
     (prefix \<lparr>prefix = ''?'', description = ''other'', getModel = 8\<rparr>) \<and>
   fst (registerHandler \<lparr>prefix = ''?'', description = ''other'', getModel = 8\<rparr>
          (snd (registerHandler (HelpQuickOpenHandler 7) new_registry))) = NULL \<and>
   handlers (snd (registerHandler \<lparr>prefix = ''?'', description = ''other'', getModel = 8\<rparr>
          (snd (registerHandler (HelpQuickOpenHandler 7) new_registry))))
     = [(''?'', HelpQuickOpenHandler 7)]"
proof -
  let ?r = "snd (registerHandler (HelpQuickOpenHandler 7) new_registry)"
  let ?h = "\<lparr>prefix = ''?'', description = ''other'', getModel = 8\<rparr>"
  have inv: "one_handler_per_prefix ?r"
    by (simp add: one_handler_per_prefix_def getHandlers_def map_values_def
        registerHandler_def new_registry_def map_has_def HelpQuickOpenHandler_def Let_def)
  have has: "map_has (handlers ?r) (prefix ?h)"
    by (simp add: registerHandler_def new_registry_def map_has_def HelpQuickOpenHandler_def
        Let_def)
  have hs: "handlers ?r = [(''?'', HelpQuickOpenHandler 7)]"
    by (simp add: registerHandler_def new_registry_def map_has_def HelpQuickOpenHandler_def
        Let_def)
  from registry_one_handler_per_prefix[of ?r "\<lambda>ds. (rev ds, [])" "RegisterHandler ?h" ?h]
    inv has hs
  show ?thesis by simp
qed

lemma getHandler_loops_agree:
  "getHandlerByText_loop hs text = getHandlerForText_loop hs text"
  by (induction hs) auto

text \<open>
  C9. On the same handlers and the same text, \<open>getHandlerByText\<close> of the older
  registry and \<open>getHandlerForText\<close> of the newer one give the same result: the same
  handler, or none.
\<close>

theorem getHandlerByText_eq_getHandlerForText:
  "getHandlerByText r text = getHandlerForText r text"
  by (simp add: getHandlerByText_def getHandlerForText_def getHandler_loops_agree)

section \<open>Properties of the debug adapter contribution\<close>

lemma strict_eq_JString: "strict_eq v (JString s) = (v = JString s)"
  by (cases v) auto

text \<open>
  C4, as stated, fails on the configuration that \<open>provideDebugConfigurations\<close>
  offers: its request is \<open>attach\<close> and its process id is present, the empty
  string, and \<open>resolveDebugConfiguration\<close> throws.
\<close>

theorem resolveDebugConfiguration_empty_processId_counterexample:
  "isl (snd (resolveDebugConfiguration \<lparr>debugType = ''node'', name = ''Attach by PID'', request = JString ''attach'',
       processId = JString [], breakpoints = Some [''[.]js$'', ''[.]ts$'']\<rparr>)) \<noteq>
   (request \<lparr>debugType = ''node'', name = ''Attach by PID'', request = JString ''attach'',
       processId = JString [], breakpoints = Some [''[.]js$'', ''[.]ts$'']\<rparr> = JUndefined \<or>
    request \<lparr>debugType = ''node'', name = ''Attach by PID'', request = JString ''attach'',
       processId = JString [], breakpoints = Some [''[.]js$'', ''[.]ts$'']\<rparr> = JString ''attach'' \<and>
    processId \<lparr>debugType = ''node'', name = ''Attach by PID'', request = JString ''attach'',
       processId = JString [], breakpoints = Some [''[.]js$'', ''[.]ts$'']\<rparr> = JUndefined)"
  by (simp add: resolveDebugConfiguration_def validateAttachConfig_def)

text \<open>
  C4, amended. \<open>resolveDebugConfiguration\<close> throws exactly when \<open>request\<close> is
  absent or falsy (the empty string, for one), or \<open>request\<close> is \<open>attach\<close> and
  \<open>processId\<close> is absent or falsy; otherwise it returns the configuration it was
  given with \<open>breakpoints\<close> set to the file patterns \<open>[.]js$\<close> and
  \<open>[.]ts$\<close>.
\<close>

theorem resolveDebugConfiguration_throws_iff_falsy:
  "(isl (snd (resolveDebugConfiguration config)) \<longleftrightarrow>
      \<not> truthy (request config) \<or>
      request config = JString ''attach'' \<and> \<not> truthy (processId config)) \<and>
   (\<not> isl (snd (resolveDebugConfiguration config)) \<longrightarrow>
      snd (resolveDebugConfiguration config) =
        Inr (config\<lparr>breakpoints := Some [''[.]js$'', ''[.]ts$'']\<rparr>))"
  by (auto simp: resolveDebugConfiguration_def validateAttachConfig_def Let_def strict_eq_JString)

theorem resolveDebugConfiguration_throws_iff_falsy_witness:
  "truthy (request \<lparr>debugType = ''node'', name = ''Attach by PID'', request = JString ''attach'',
       processId = JString ''4711'', breakpoints = None\<rparr>) \<and>
   truthy (processId \<lparr>debugType = ''node'', name = ''Attach by PID'', request = JString ''attach'',
       processId = JString ''4711'', breakpoints = None\<rparr>) \<and>
   \<not> isl (snd (resolveDebugConfiguration
     \<lparr>debugType = ''node'', name = ''Attach by PID'', request = JString ''attach'',
       processId = JString ''4711'', breakpoints = None\<rparr>)) \<and>
   snd (resolveDebugConfiguration
     \<lparr>debugType = ''node'', name = ''Attach by PID'', request = JString ''attach'',
       processId = JString ''4711'', breakpoints = None\<rparr>) =
     Inr \<lparr>debugType = ''node'', name = ''Attach by PID'', request = JString ''attach'',
       processId = JString ''4711'', breakpoints = Some [''[.]js$'', ''[.]ts$'']\<rparr>"
  using resolveDebugConfiguration_throws_iff_falsy[of "\<lparr>debugType = ''node'', name = ''Attach by PID'', request = JString ''attach'',
       processId = JString ''4711'', breakpoints = None\<rparr>"]
  by simp

section \<open>Properties of the decorators\<close>

text \<open>
  C10. For a stack frame in 1-based coordinates (an end line and an end column, when
  present, are at least 1), \<open>toRange\<close> of the active line decorator gives the
  0-based range: the start line is \<open>line - 1\<close>; the start column is
  \<open>column - 1\<close> when \<open>endColumn\<close> is present and 0 otherwise; the end line is
  \<open>endLine - 1\<close> when \<open>endLine\<close> is present and \<open>line - 1\<close> otherwise; the
  end column is \<open>endColumn - 1\<close> when present and 0 otherwise.
\<close>

theorem ActiveLineDecorator_toRange_zero_based:
  assumes "\<forall>n. endLine frame = Some n \<longrightarrow> 1 \<le> n"
    and "\<forall>n. endColumn frame = Some n \<longrightarrow> 1 \<le> n"
  shows "line (range_start (ActiveLineDecorator_toRange frame)) = Number (frame_line frame - 1) \<and>
     character (range_start (ActiveLineDecorator_toRange frame)) =
       (case endColumn frame of Some ec \<Rightarrow> Number (frame_column frame - 1) | None \<Rightarrow> Number 0) \<and>
     line (range_end (ActiveLineDecorator_toRange frame)) =
       (case endLine frame of Some el \<Rightarrow> Number (el - 1) | None \<Rightarrow> Number (frame_line frame - 1)) \<and>
     character (range_end (ActiveLineDecorator_toRange frame)) =
       (case endColumn frame of Some ec \<Rightarrow> Number (ec - 1) | None \<Rightarrow> Number 0)"
  using assms
  by (auto simp: ActiveLineDecorator_toRange_def Position_create_def Range_create_def Let_def
      split: option.splits)

theorem ActiveLineDecorator_toRange_zero_based_witness:
  "ActiveLineDecorator_toRange
     \<lparr>frame_line = 12, frame_column = 5, endLine = Some 14, endColumn = Some 9\<rparr>
   = \<lparr>range_start = \<lparr>line = Number 11, character = Number 4\<rparr>,
      range_end = \<lparr>line = Number 13, character = Number 8\<rparr>\<rparr>"
proof -
  let ?f = "\<lparr>frame_line = 12, frame_column = 5, endLine = Some 14, endColumn = Some 9\<rparr>"
  have h1: "\<forall>n. endLine ?f = Some n \<longrightarrow> 1 \<le> n" by simp
  have h2: "\<forall>n. endColumn ?f = Some n \<longrightarrow> 1 \<le> n" by simp
  from ActiveLineDecorator_toRange_zero_based[OF h1 h2] show ?thesis
    by (cases "ActiveLineDecorator_toRange ?f";
        cases "range_start (ActiveLineDecorator_toRange ?f)";
        cases "range_end (ActiveLineDecorator_toRange ?f)") auto
qed

text \<open>
  The conditions on \<open>endLine\<close> and \<open>endColumn\<close> are tests for truthiness: an
  end column that is present and 0 is treated as one that is absent.
\<close>

lemma ActiveLineDecorator_toRange_zero_endColumn:
  "ActiveLineDecorator_toRange
     \<lparr>frame_line = 3, frame_column = 5, endLine = None, endColumn = Some 0\<rparr>
   = \<lparr>range_start = \<lparr>line = Number 2, character = Number 0\<rparr>,
      range_end = \<lparr>line = Number 2, character = Number 0\<rparr>\<rparr>"
  by (simp add: ActiveLineDecorator_toRange_def Position_create_def Range_create_def)

lemma active_neq_inactive: "ActiveBreakpointDecoration \<noteq> InactiveBreakpointDecoration"
  by (simp add: ActiveBreakpointDecoration_def InactiveBreakpointDecoration_def)

text \<open>
  C7. \<open>applyDecorations\<close> of the breakpoint decorator decorates the editor it is
  given, or all editors when it is given none. For each of them it sets one decoration
  per stored source breakpoint whose URI matches the URI of the editor, in order: the
  decoration of a source breakpoint at line \<open>l\<close> is at line \<open>l - 1\<close>, column 0;
  it has the active-breakpoint style exactly when the breakpoint has a created
  response that is verified, and the inactive-breakpoint style exactly when not.
\<close>

theorem applyDecorations_one_per_breakpoint:
  "map fst (BreakpointDecorator_applyDecorations storage_get isSourceBreakpoint checkUri all editor)
     = (case editor of Some e \<Rightarrow> [e] | None \<Rightarrow> all) \<and>
   (\<forall>(e, ds) \<in> set (BreakpointDecorator_applyDecorations storage_get isSourceBreakpoint checkUri all editor).
      length ds = length (filter (\<lambda>b. checkUri b (uri e)) (storage_get isSourceBreakpoint)) \<and>
      (\<forall>i < length ds.
         (\<forall>l c. origin (filter (\<lambda>b. checkUri b (uri e)) (storage_get isSourceBreakpoint) ! i)
                  = SourceBreakpoint l c \<longrightarrow>
            range (ds ! i) = Range_create (Position_create (Number (l - 1)) (Number 0))
                                          (Position_create (Number (l - 1)) (Number 0))) \<and>
         (options (ds ! i) = ActiveBreakpointDecoration \<longleftrightarrow>
            (\<exists>c. created (filter (\<lambda>b. checkUri b (uri e)) (storage_get isSourceBreakpoint) ! i) = Some c
                 \<and> verified c)) \<and>
         (options (ds ! i) = InactiveBreakpointDecoration \<longleftrightarrow>
            \<not> (\<exists>c. created (filter (\<lambda>b. checkUri b (uri e)) (storage_get isSourceBreakpoint) ! i) = Some c
                 \<and> verified c))))"
  by (auto simp: BreakpointDecorator_applyDecorations_def Let_def comp_def
       BreakpointDecorator_toRange_def active_neq_inactive active_neq_inactive[symmetric]
      split: option.splits)

theorem applyDecorations_one_per_breakpoint_witness:
  "BreakpointDecorator_applyDecorations
     (\<lambda>f. filter f
        [\<lparr>source = Some \<lparr>source_name = Some ''a.ts'', source_path = Some ''/w/a.ts''\<rparr>,
          created = Some \<lparr>verified = True\<rparr>, sessionId = None,
          origin = SourceBreakpoint 10 None\<rparr>,
         \<lparr>source = Some \<lparr>source_name = Some ''b.ts'', source_path = Some ''/w/b.ts''\<rparr>,
          created = Some \<lparr>verified = True\<rparr>, sessionId = None,
          origin = SourceBreakpoint 20 None\<rparr>,
         \<lparr>source = Some \<lparr>source_name = Some ''a.ts'', source_path = Some ''/w/a.ts''\<rparr>,
          created = None, sessionId = None,
          origin = SourceBreakpoint 30 None\<rparr>])
     (\<lambda>b. source b \<noteq> None)
     (\<lambda>b u. case source b of Some s \<Rightarrow> source_path s = Some u | None \<Rightarrow> False)
     [] (Some \<lparr>uri = ''/w/a.ts''\<rparr>)
   = [(\<lparr>uri = ''/w/a.ts''\<rparr>,
       [\<lparr>range = \<lparr>range_start = \<lparr>line = Number 9, character = Number 0\<rparr>,
                   range_end = \<lparr>line = Number 9, character = Number 0\<rparr>\<rparr>,
         options = ActiveBreakpointDecoration\<rparr>,
        \<lparr>range = \<lparr>range_start = \<lparr>line = Number 29, character = Number 0\<rparr>,
                   range_end = \<lparr>line = Number 29, character = Number 0\<rparr>\<rparr>,
         options = InactiveBreakpointDecoration\<rparr>])]"
  using applyDecorations_one_per_breakpoint[of "(\<lambda>f. filter f
        [\<lparr>source = Some \<lparr>source_name = Some ''a.ts'', source_path = Some ''/w/a.ts''\<rparr>,
          created = Some \<lparr>verified = True\<rparr>, sessionId = None,
          origin = SourceBreakpoint 10 None\<rparr>,
         \<lparr>source = Some \<lparr>source_name = Some ''b.ts'', source_path = Some ''/w/b.ts''\<rparr>,
          created = Some \<lparr>verified = True\<rparr>, sessionId = None,
          origin = SourceBreakpoint 20 None\<rparr>,
         \<lparr>source = Some \<lparr>source_name = Some ''a.ts'', source_path = Some ''/w/a.ts''\<rparr>,
          created = None, sessionId = None,
          origin = SourceBreakpoint 30 None\<rparr>])"
     "(\<lambda>b. source b \<noteq> None)"
     "(\<lambda>b u. case source b of Some s \<Rightarrow> source_path s = Some u | None \<Rightarrow> False)"
     "[]" "(Some \<lparr>uri = ''/w/a.ts''\<rparr>)"]
  by (simp add: BreakpointDecorator_applyDecorations_def BreakpointDecorator_toRange_def
      Range_create_def Position_create_def)

section \<open>Properties of the breakpoints widget\<close>

lemma js_sort_objects: "js_sort toString_object xs = xs"
proof -
  have eq: "toString_object = (\<lambda>x::'a. ''[object Object]'')"
    by (rule ext) (simp add: toString_object_def)
  have "sort_key (\<lambda>x::'a. ''[object Object]'') xs = xs"
    by (rule sort_key_const)
  then show ?thesis
    unfolding js_sort_def eq .
qed

text \<open>
  C8. \<open>refreshBreakpoints\<close> replaces the breakpoint list of the widget: with
  \<open>breakpointManager.get(sessionId)\<close> when the widget has a debug session, with
  \<open>breakpointManager.getAll()\<close> when it has none.
\<close>

theorem refreshBreakpoints_replaces_list:
  "(debugSession w = Some session \<longrightarrow>
      widget_breakpoints (refreshBreakpoints m w) = manager_get m (session_sessionId session)) \<and>
   (debugSession w = None \<longrightarrow>
      widget_breakpoints (refreshBreakpoints m w) = manager_getAll m)"
  by (simp add: refreshBreakpoints_def Let_def js_sort_objects)

theorem refreshBreakpoints_replaces_list_witness:
  "debugSession (new_DebugBreakpointsWidget (Some \<lparr>session_sessionId = ''s1''\<rparr>))
     = Some \<lparr>session_sessionId = ''s1''\<rparr> \<and>
   widget_breakpoints
     (refreshBreakpoints
        \<lparr>manager_get = (\<lambda>sid. if sid = ''s1''
             then [\<lparr>source = None, created = None, sessionId = Some ''s1'',
                    origin = FunctionBreakpoint ''main''\<rparr>] else []),
         manager_getAll = []\<rparr>
        (new_DebugBreakpointsWidget (Some \<lparr>session_sessionId = ''s1''\<rparr>)))
     = [\<lparr>source = None, created = None, sessionId = Some ''s1'',
         origin = FunctionBreakpoint ''main''\<rparr>] \<and>
   debugSession (new_DebugBreakpointsWidget None) = None \<and>
   widget_breakpoints
     (refreshBreakpoints
        \<lparr>manager_get = (\<lambda>sid. []),
         manager_getAll = [\<lparr>source = None, created = None, sessionId = None,
                    origin = ExceptionBreakpoint ''uncaught''\<rparr>]\<rparr>
        (new_DebugBreakpointsWidget None))
     = [\<lparr>source = None, created = None, sessionId = None,
         origin = ExceptionBreakpoint ''uncaught''\<rparr>]"
  using refreshBreakpoints_replaces_list[of "new_DebugBreakpointsWidget (Some \<lparr>session_sessionId = ''s1''\<rparr>)"
             "\<lparr>session_sessionId = ''s1''\<rparr>"
             "\<lparr>manager_get = (\<lambda>sid. if sid = ''s1''
             then [\<lparr>source = None, created = None, sessionId = Some ''s1'',
                    origin = FunctionBreakpoint ''main''\<rparr>] else []),
         manager_getAll = []\<rparr>"]
        refreshBreakpoints_replaces_list[of "new_DebugBreakpointsWidget None" undefined
           "\<lparr>manager_get = (\<lambda>sid. []),
         manager_getAll = [\<lparr>source = None, created = None, sessionId = None,
                    origin = ExceptionBreakpoint ''uncaught''\<rparr>]\<rparr>"]
  by (simp add: new_DebugBreakpointsWidget_def)

section \<open>Properties of the preferences menu factory\<close>

lemma map_of_inj_keys:
  "inj f \<Longrightarrow> map_of (map (\<lambda>v. (f v, g v)) us) (f u) = (if u \<in> set us then Some (g u) else None)"
  by (induction us) (auto dest: injD)

lemma enum_fold_inv:
  fixes ident saved p
  defines "k \<equiv> \<lambda>v. ident @ ''-'' @ v"
  defines "c \<equiv> \<lambda>v. \<lparr>label = v,
                    iconClass = check_icon
                      (strict_eq saved (JString v) \<or>
                       \<not> truthy saved \<and> strict_eq (property_default p) (JString v)),
                    execute = (ident, JString v)\<rparr>"
  assumes "commands m = map (\<lambda>v. (k v, c v)) us" and "items m = map k us" and "distinct us"
  shows "\<exists>us'. commands (fold (enum_step ident saved p) vs m) = map (\<lambda>v. (k v, c v)) us' \<and>
               items (fold (enum_step ident saved p) vs m) = map k us' \<and>
               distinct us' \<and> set us' = set us \<union> set vs"
  using assms(3-)
proof (induction vs arbitrary: m us)
  case Nil
  then show ?case by auto
next
  case (Cons v vs)
  have has: "map_has (commands m) (k v) \<longleftrightarrow> v \<in> set us"
    using Cons.prems(1) by (auto simp: map_has_def k_def comp_def)
  show ?case
  proof (cases "v \<in> set us")
    case True
    then have "enum_step ident saved p v m = m"
      using has by (simp add: enum_step_def k_def)
    with Cons.IH[OF Cons.prems] True show ?thesis by auto
  next
    case False
    let ?m = "enum_step ident saved p v m"
    have 1: "commands ?m = map (\<lambda>v. (k v, c v)) (us @ [v])"
      using has False Cons.prems(1)
      by (simp add: enum_step_def k_def c_def Let_def addItem_def addCommand_def map_set_fresh)
    have 2: "items ?m = map k (us @ [v])"
      using has False Cons.prems(2)
      by (simp add: enum_step_def k_def Let_def addItem_def addCommand_def)
    have 3: "distinct (us @ [v])" using False Cons.prems(3) by simp
    from Cons.IH[OF 1 2 3] show ?thesis by auto
  qed
qed

lemma enum_menu:
  assumes "property_enum p = Some vs"
  shows "\<exists>us. distinct us \<and> set us = set vs \<and>
            map (map_option label) (menu_commands (createPreferenceContextMenu ident saved (Some p)))
              = map Some us \<and>
            map (map_option execute) (menu_commands (createPreferenceContextMenu ident saved (Some p)))
              = map (\<lambda>v. Some (ident, JString v)) us"
proof -
  let ?k = "\<lambda>v. ident @ ''-'' @ v"
  let ?c = "\<lambda>v. \<lparr>label = v,
                    iconClass = check_icon
                      (strict_eq saved (JString v) \<or>
                       \<not> truthy saved \<and> strict_eq (property_default p) (JString v)),
                    execute = (ident, JString v)\<rparr>"
  let ?m = "createPreferenceContextMenu ident saved (Some p)"
  have inj: "inj ?k" by (rule injI) simp
  have m: "?m = fold (enum_step ident saved p) vs new_Menu"
    using assms by (simp add: createPreferenceContextMenu_def)
  obtain us where us: "commands ?m = map (\<lambda>v. (?k v, ?c v)) us"
     "items ?m = map ?k us" "distinct us" "set us = set vs"
    using enum_fold_inv[of new_Menu ident saved p "[]" vs] unfolding m
    by (auto simp: new_Menu_def)
  have look: "item_command ?m (?k u) = Some (?c u)" if "u \<in> set us" for u
    unfolding item_command_def us(1) map_of_inj_keys[OF inj, of ?c us] using that by simp
  have cmds: "menu_commands ?m = map (\<lambda>u. Some (?c u)) us"
    unfolding menu_commands_def us(2) map_map comp_def
    by (rule map_cong) (simp_all only: look)
  have "map (map_option label) (menu_commands ?m) = map Some us"
    unfolding cmds by simp
  moreover have "map (map_option execute) (menu_commands ?m) = map (\<lambda>v. Some (ident, JString v)) us"
    unfolding cmds by simp
  ultimately show ?thesis using us(3,4) by blast
qed

text \<open>
  C6. For a property schema that is not null, the items of the menu that
  \<open>createPreferenceContextMenu\<close> returns are given by the schema. With an
  \<open>enum\<close>: one item per distinct value of the enum, labelled with the value (and
  submitting it). With no \<open>enum\<close> and the type \<open>boolean\<close>: two items, labelled
  \<open>true\<close> and \<open>false\<close>. Otherwise: one item, labelled \<open>Add Value\<close>, which
  submits the default of the property when that is truthy and the empty string when
  not.
\<close>

theorem createPreferenceContextMenu_items:
  "(\<forall>vs. property_enum p = Some vs \<longrightarrow>
      (\<exists>us. distinct us \<and> set us = set vs \<and>
            map (map_option label) (menu_commands (createPreferenceContextMenu ident saved (Some p)))
              = map Some us \<and>
            map (map_option execute) (menu_commands (createPreferenceContextMenu ident saved (Some p)))
              = map (\<lambda>v. Some (ident, JString v)) us)) \<and>
   (property_enum p = None \<and> property_type p = JString ''boolean'' \<longrightarrow>
      map (map_option label) (menu_commands (createPreferenceContextMenu ident saved (Some p)))
        = [Some ''true'', Some ''false'']) \<and>
   (property_enum p = None \<and> property_type p \<noteq> JString ''boolean'' \<longrightarrow>
      map (map_option label) (menu_commands (createPreferenceContextMenu ident saved (Some p)))
        = [Some ''Add Value''] \<and>
      map (map_option execute) (menu_commands (createPreferenceContextMenu ident saved (Some p)))
        = [Some (ident, if truthy (property_default p) then property_default p else JString [])])"
proof (intro conjI allI impI)
  fix vs assume "property_enum p = Some vs"
  then show "\<exists>us. distinct us \<and> set us = set vs \<and>
            map (map_option label) (menu_commands (createPreferenceContextMenu ident saved (Some p)))
              = map Some us \<and>
            map (map_option execute) (menu_commands (createPreferenceContextMenu ident saved (Some p)))
              = map (\<lambda>v. Some (ident, JString v)) us"
    by (rule enum_menu)
next
  assume "property_enum p = None \<and> property_type p = JString ''boolean''"
  then show "map (map_option label) (menu_commands (createPreferenceContextMenu ident saved (Some p)))
        = [Some ''true'', Some ''false'']"
    by (simp add: createPreferenceContextMenu_def menu_commands_def item_command_def Let_def
        addItem_def addCommand_def new_Menu_def)
next
  assume a: "property_enum p = None \<and> property_type p \<noteq> JString ''boolean''"
  then have ne: "\<not> strict_eq (property_type p) (JString ''boolean'')"
    by (cases "property_type p") auto
  from a ne show "map (map_option label) (menu_commands (createPreferenceContextMenu ident saved (Some p)))
        = [Some ''Add Value'']"
    by (simp add: createPreferenceContextMenu_def menu_commands_def item_command_def Let_def
        addItem_def addCommand_def new_Menu_def)
  from a ne show "map (map_option execute) (menu_commands (createPreferenceContextMenu ident saved (Some p)))
        = [Some (ident, if truthy (property_default p) then property_default p else JString [])]"
    by (simp add: createPreferenceContextMenu_def menu_commands_def item_command_def Let_def
        addItem_def addCommand_def new_Menu_def)
qed

theorem createPreferenceContextMenu_items_witness:
  "property_enum \<lparr>property_enum = Some [''on'', ''off'', ''on''], property_type = JString ''string'',
                  property_default = JString ''off''\<rparr> = Some [''on'', ''off'', ''on''] \<and>
   map (map_option label) (menu_commands (createPreferenceContextMenu ''editor.autoSave'' JUndefined
     (Some \<lparr>property_enum = Some [''on'', ''off'', ''on''], property_type = JString ''string'',
                  property_default = JString ''off''\<rparr>)))
     = [Some ''on'', Some ''off''] \<and>
   map (map_option label) (menu_commands (createPreferenceContextMenu ''editor.minimap'' JUndefined
     (Some \<lparr>property_enum = None, property_type = JString ''boolean'',
                  property_default = JBoolean True\<rparr>)))
     = [Some ''true'', Some ''false''] \<and>
   map (map_option label) (menu_commands (createPreferenceContextMenu ''editor.tabSize'' JUndefined
     (Some \<lparr>property_enum = None, property_type = JString ''number'',
                  property_default = JNumber 4\<rparr>)))
     = [Some ''Add Value''] \<and>
   map (map_option execute) (menu_commands (createPreferenceContextMenu ''editor.tabSize'' JUndefined
     (Some \<lparr>property_enum = None, property_type = JString ''number'',
                  property_default = JNumber 4\<rparr>)))
     = [Some (''editor.tabSize'', JNumber 4)]"
proof -
  let ?p1 = "\<lparr>property_enum = Some [''on'', ''off'', ''on''], property_type = JString ''string'',
                  property_default = JString ''off''\<rparr>"
  let ?p2 = "\<lparr>property_enum = None, property_type = JString ''boolean'',
                  property_default = JBoolean True\<rparr>"
  let ?p3 = "\<lparr>property_enum = None, property_type = JString ''number'',
                  property_default = JNumber 4\<rparr>"
  have e1: "map (map_option label) (menu_commands (createPreferenceContextMenu ''editor.autoSave'' JUndefined (Some ?p1)))
     = [Some ''on'', Some ''off'']"
    by (simp add: createPreferenceContextMenu_def menu_commands_def item_command_def
        enum_step_def addItem_def addCommand_def new_Menu_def map_has_def Let_def)
  from createPreferenceContextMenu_items[of ?p2 "''editor.minimap''" JUndefined] createPreferenceContextMenu_items[of ?p3 "''editor.tabSize''" JUndefined]
     createPreferenceContextMenu_items[of ?p1 "''editor.autoSave''" JUndefined] e1
  show ?thesis by simp
qed

section \<open>Properties of the marker tree\<close>

lemma of_char_digit: "d < 10 \<Longrightarrow> (of_char (digit_char d) :: nat) - 48 = d"
  unfolding digit_char_def by (simp add: of_char_of)

lemma nat_of_string_snoc:
  "nat_of_string (s @ [c]) = 10 * nat_of_string s + (of_char c - 48)"
  by (simp add: nat_of_string_def)

lemma nat_of_string_single: "nat_of_string [c] = of_char c - 48"
  by (simp add: nat_of_string_def)

lemma nat_of_string_of_nat: "nat_of_string (string_of_nat n) = n"
proof (induction n rule: string_of_nat.induct)
  case (1 n)
  show ?case
  proof (cases "n < 10")
    case True
    have "string_of_nat n = [digit_char n]"
      using True by (subst string_of_nat.simps) simp
    then show ?thesis
      using True by (simp only: nat_of_string_single of_char_digit)
  next
    case False
    have eq: "string_of_nat n = string_of_nat (n div 10) @ [digit_char (n mod 10)]"
      using False by (subst string_of_nat.simps) simp
    have ih: "nat_of_string (string_of_nat (n div 10)) = n div 10"
      using 1 False by simp
    have d: "(of_char (digit_char (n mod 10)) :: nat) - 48 = n mod 10"
      by (rule of_char_digit) simp
    show ?thesis
      unfolding eq nat_of_string_snoc ih d by presburger
  qed
qed

lemma string_of_nat_inj: "string_of_nat i = string_of_nat j \<Longrightarrow> i = j"
  by (metis nat_of_string_of_nat)

lemma string_of_nat_nonempty: "string_of_nat n \<noteq> []"
  by (subst string_of_nat.simps) simp

lemma child_id_inj:
  "p @ ''_'' @ string_of_nat i = p @ ''_'' @ string_of_nat j \<Longrightarrow> i = j"
  by (simp add: string_of_nat_inj)

lemma fold_upd_other:
  "k \<notin> f ` set cs \<Longrightarrow> fold (\<lambda>c m. m(f c \<mapsto> c)) cs m k = m k"
  by (induction cs arbitrary: m) auto

lemma fold_upd_hit:
  "distinct (map f cs) \<Longrightarrow> c \<in> set cs \<Longrightarrow> fold (\<lambda>c m. m(f c \<mapsto> c)) cs m (f c) = Some c"
  by (induction cs arbitrary: m) (auto simp: fold_upd_other)

lemma fold_upd_ok:
  "(\<forall>k n. m k = Some n \<longrightarrow> node_ok k n) \<Longrightarrow> (\<forall>c \<in> set cs. node_ok (node_id c) c) \<Longrightarrow>
   fold (\<lambda>c m. m(node_id c \<mapsto> c)) cs m k = Some n \<Longrightarrow> node_ok k n"
proof (induction cs arbitrary: m)
  case Nil
  then show ?case by simp
next
  case (Cons c cs)
  have "\<forall>k n. (m(node_id c \<mapsto> c)) k = Some n \<longrightarrow> node_ok k n"
    using Cons.prems(1,2) by auto
  from Cons.IH[OF this] Cons.prems(2,3) show ?case by simp
qed

lemma fold_del_None: "m k = None \<Longrightarrow> fold (\<lambda>c m. m(c := None)) cs m k = None"
  by (induction cs arbitrary: m) auto

lemma fold_del_sub:
  "fold (\<lambda>c m. m(c := None)) cs m k = Some n \<Longrightarrow> m k = Some n"
proof (induction cs arbitrary: m)
  case Nil
  then show ?case by simp
next
  case (Cons c cs)
  from Cons.IH[of "m(c := None)"] Cons.prems show ?case
    by (auto split: if_splits)
qed

lemma createMarkerNode_props:
  assumes ok: "\<forall>k n. nodes t k = Some n \<longrightarrow> node_ok k n"
    and c: "createMarkerNode t mk i p = (c, t1)"
  shows "node_id c = node_id p @ ''_'' @ string_of_nat i"
    and "MarkerNode_is (Some c)"
    and "marker c = mk"
    and "\<forall>k n. nodes t1 k = Some n \<longrightarrow> node_ok k n"
    and "root_children t1 = root_children t"
proof -
  let ?id = "node_id p @ ''_'' @ string_of_nat i"
  have here: "node_ok ?id n" if "nodes t ?id = Some n" for n
    using ok that by blast
  have "node_id c = ?id \<and> MarkerNode_is (Some c) \<and> marker c = mk \<and>
        (\<forall>k n. nodes t1 k = Some n \<longrightarrow> node_ok k n) \<and> root_children t1 = root_children t"
  proof (cases "nodes t ?id")
    case None
    with c ok show ?thesis
      by (auto simp: createMarkerNode_def getNode_def Let_def)
  next
    case (Some e)
    show ?thesis
    proof (cases e)
      case (MarkerInfoNode i' u n ic d cs k ex s)
      with Some c ok show ?thesis
        by (auto simp: createMarkerNode_def getNode_def Let_def)
    next
      case (MarkerNode i' n pa s u m)
      with Some here[of e] have id: "i' = ?id"
        by (simp add: node_ok_def)
      from MarkerNode Some c
      have c': "c = MarkerNode i' n pa s u mk"
        and t1: "t1 = t\<lparr>nodes := (nodes t)(?id \<mapsto> MarkerNode i' n pa s u mk)\<rparr>"
        by (auto simp: createMarkerNode_def getNode_def Let_def)
      have "node_ok ?id (MarkerNode i' n pa s u mk)"
        using id by (simp add: node_ok_def)
      with ok have "\<forall>k n. nodes t1 k = Some n \<longrightarrow> node_ok k n"
        unfolding t1 by simp
      with c' t1 id show ?thesis by simp
    qed
  qed
  then show "node_id c = node_id p @ ''_'' @ string_of_nat i"
    and "MarkerNode_is (Some c)"
    and "marker c = mk"
    and "\<forall>k n. nodes t1 k = Some n \<longrightarrow> node_ok k n"
    and "root_children t1 = root_children t"
    by blast+
qed

lemma getMarkerNodes_from_props:
  assumes "\<forall>k n. nodes t k = Some n \<longrightarrow> node_ok k n"
    and "getMarkerNodes_from t p j ms = (cs, t2)"
  shows "length cs = length ms \<and>
         (\<forall>i < length ms. node_id (cs ! i) = node_id p @ ''_'' @ string_of_nat (j + i) \<and>
              MarkerNode_is (Some (cs ! i)) \<and> marker (cs ! i) = ms ! i) \<and>
         (\<forall>k n. nodes t2 k = Some n \<longrightarrow> node_ok k n) \<and>
         root_children t2 = root_children t"
  using assms
proof (induction ms arbitrary: t j cs t2)
  case Nil
  then show ?case by simp
next
  case (Cons mk ms)
  obtain c t1 where c: "createMarkerNode t mk j p = (c, t1)"
    by (cases "createMarkerNode t mk j p")
  obtain cs' t2' where r: "getMarkerNodes_from t1 p (Suc j) ms = (cs', t2')"
    by (cases "getMarkerNodes_from t1 p (Suc j) ms")
  from Cons.prems(2) c r have cs: "cs = c # cs'" and t2: "t2 = t2'"
    by simp_all
  note P = createMarkerNode_props[OF Cons.prems(1) c]
  note IH = Cons.IH[OF P(4) r]
  show ?case
  proof (intro conjI allI impI)
    show "length cs = length (mk # ms)" using IH cs by simp
  next
    fix i assume i: "i < length (mk # ms)"
    show "node_id (cs ! i) = node_id p @ ''_'' @ string_of_nat (j + i)"
      using IH P(1) cs i by (cases i) auto
    show "MarkerNode_is (Some (cs ! i))"
      using IH P(2) cs i by (cases i) auto
    show "marker (cs ! i) = (mk # ms) ! i"
      using IH P(3) cs i by (cases i) auto
  next
    fix k n assume "nodes t2 k = Some n"
    then show "node_ok k n" using IH t2 by blast
  next
    show "root_children t2 = root_children t" using IH P(5) t2 by simp
  qed
qed

lemma marker_not_info: "MarkerNode_is (Some c) \<Longrightarrow> \<not> MarkerInfoNode_is (Some c)"
  by (cases c) simp_all

lemma tree_okD: "tree_ok t \<Longrightarrow> nodes t k = Some n \<Longrightarrow> node_ok k n"
  unfolding tree_ok_def by blast

lemma refresh_empty:
  assumes ok: "tree_ok t" and ms: "findMarkers env u = []"
  shows "tree_ok (refreshMarkerInfo env during t u)"
    and "MarkerInfoNode_is (getNode t u) \<Longrightarrow>
         u \<notin> set (root_children (refreshMarkerInfo env during t u)) \<and>
         getNode (refreshMarkerInfo env during t u) u = None"
proof -
  have both: "tree_ok (refreshMarkerInfo env during t u) \<and>
     (MarkerInfoNode_is (getNode t u) \<longrightarrow>
         u \<notin> set (root_children (refreshMarkerInfo env during t u)) \<and>
         getNode (refreshMarkerInfo env during t u) u = None)"
  proof (cases "MarkerInfoNode_is (getNode t u)")
    case False
    then have "refreshMarkerInfo env during t u = t"
      using ms by (auto simp: refreshMarkerInfo_def Let_def split: option.splits tree_node.splits)
    with ok False show ?thesis by simp
  next
    case True
    then obtain e0 i u' n ic d cs k e s where
      ex: "getNode t u = Some e0" and e0: "e0 = MarkerInfoNode i u' n ic d cs k e s"
      by (cases "getNode t u") (auto elim: MarkerInfoNode_is.elims)
    from ok ex have "node_ok u e0"
      unfolding getNode_def by (rule tree_okD)
    then have i: "i = u" by (simp add: node_ok_def e0)
    have r: "refreshMarkerInfo env during t u = fireChanged (removeNode (removeChild t e0) e0)"
      using ms ex by (simp add: refreshMarkerInfo_def Let_def e0)
    have rc: "root_children (refreshMarkerInfo env during t u) = remove1 u (root_children t)"
      unfolding r by (simp add: fireChanged_def removeNode_def removeChild_def i e0)
    have ns: "nodes (refreshMarkerInfo env during t u) =
              (fold (\<lambda>c m. m(c := None)) cs (nodes t))(u := None)"
      unfolding r by (simp add: fireChanged_def removeNode_def removeChild_def i e0)
    have d: "distinct (root_children (refreshMarkerInfo env during t u))"
      unfolding rc using ok by (simp add: tree_ok_def)
    have sub: "node_ok k' n'" if "nodes (refreshMarkerInfo env during t u) k' = Some n'" for k' n'
    proof -
      from that have "fold (\<lambda>c m. m(c := None)) cs (nodes t) k' = Some n'"
        unfolding ns by (simp split: if_splits)
      then have "nodes t k' = Some n'" by (rule fold_del_sub)
      with ok show ?thesis by (rule tree_okD)
    qed
    have gone: "u \<notin> set (root_children (refreshMarkerInfo env during t u))"
      unfolding rc using ok by (simp add: tree_ok_def)
    have none: "getNode (refreshMarkerInfo env during t u) u = None"
      unfolding getNode_def ns by simp
    from d sub have "tree_ok (refreshMarkerInfo env during t u)"
      unfolding tree_ok_def by blast
    with gone none show ?thesis by blast
  qed
  from both show "tree_ok (refreshMarkerInfo env during t u)" by blast
  from both show "MarkerInfoNode_is (getNode t u) \<Longrightarrow>
         u \<notin> set (root_children (refreshMarkerInfo env during t u)) \<and>
         getNode (refreshMarkerInfo env during t u) u = None" by blast
qed

lemma addChild_props:
  "distinct (root_children t) \<Longrightarrow>
   distinct (root_children (addChild t c)) \<and> node_id c \<in> set (root_children (addChild t c)) \<and>
   nodes (addChild t c) = nodes t"
  by (simp add: addChild_def)

lemma refresh_nonempty:
  fixes t :: "'m MarkerTree"
  assumes ok: "tree_ok t" and okd: "tree_ok (during t)" and ms: "findMarkers env u \<noteq> []"
  shows "tree_ok (refreshMarkerInfo env during t u) \<and>
         u \<in> set (root_children (refreshMarkerInfo env during t u)) \<and>
         (\<exists>node. getNode (refreshMarkerInfo env during t u) u = Some node \<and>
            MarkerInfoNode_is (Some node) \<and> node_uri node = u \<and>
            numberOfMarkers node = length (findMarkers env u) \<and>
            children node = map (\<lambda>i. u @ ''_'' @ string_of_nat i) [0..<length (findMarkers env u)] \<and>
            distinct (children node) \<and>
            (\<forall>i < length (findMarkers env u).
               \<exists>c. getNode (refreshMarkerInfo env during t u) (children node ! i) = Some c \<and>
                   MarkerNode_is (Some c) \<and> marker c = findMarkers env u ! i))"
proof -
  let ?ms = "findMarkers env u"
  define node :: "'m tree_node" where
    "node = (case getNode t u of
               Some (MarkerInfoNode i u' n ic d cs k e s) \<Rightarrow> MarkerInfoNode i u' n ic d cs k e s
             | other \<Rightarrow> createMarkerInfo env u u)"
  have "\<exists>n ic d old k e s. node = MarkerInfoNode u u n ic d old k e s"
  proof (cases "getNode t u")
    case None
    then show ?thesis by (auto simp: node_def createMarkerInfo_def)
  next
    case (Some e0)
    show ?thesis
    proof (cases e0)
      case (MarkerInfoNode i u' n ic d cs k e s)
      from ok Some have "node_ok u e0"
        unfolding getNode_def by (rule tree_okD)
      with MarkerInfoNode have "i = u" "u' = u"
        by (simp_all add: node_ok_def)
      with Some MarkerInfoNode show ?thesis by (auto simp: node_def)
    next
      case (MarkerNode i n p s u' m)
      with Some show ?thesis by (auto simp: node_def createMarkerInfo_def)
    qed
  qed
  then obtain n ic d old k e s where node: "node = MarkerInfoNode u u n ic d old k e s"
    by blast
  define t0 where "t0 = (if MarkerInfoNode_is (getNode t u) then t else during t)"
  have ok0: "tree_ok t0"
    using ok okd by (simp add: t0_def)
  have pair:
    "(case getNode t u of
        Some (MarkerInfoNode i u' n ic d cs k e s) \<Rightarrow> (MarkerInfoNode i u' n ic d cs k e s, t)
      | other \<Rightarrow> (createMarkerInfo env u u, during t)) = (node, t0)"
    by (auto simp: node_def t0_def split: option.splits tree_node.splits)
  define t1 where "t1 = addChild t0 node"
  obtain cs t2 where g: "getMarkerNodes_from t1 node 0 ?ms = (cs, t2)"
    by (cases "getMarkerNodes_from t1 node 0 ?ms")
  define parent' :: "'m tree_node" where
    "parent' = MarkerInfoNode u u n ic d (map node_id cs) (length ?ms) e s"
  define base where
    "base = ((fold (\<lambda>c m. m(c := None)) old (nodes t2))(u := None))(u \<mapsto> parent')"
  have r: "refreshMarkerInfo env during t u =
           fireChanged (t2\<lparr>nodes := fold (\<lambda>c m. m(node_id c \<mapsto> c)) cs base\<rparr>)"
    using ms g
    by (simp add: refreshMarkerInfo_def Let_def pair t1_def
        getMarkerNodes_def node setChildren_def removeNode_def parent'_def base_def)
  have a: "distinct (root_children t1)" "u \<in> set (root_children t1)" "nodes t1 = nodes t0"
    using addChild_props[of t0 node] ok0
    by (simp_all add: t1_def tree_ok_def node)
  have ok1: "\<forall>k n. nodes t1 k = Some n \<longrightarrow> node_ok k n"
    using ok0 a(3) by (simp add: tree_ok_def)
  note G = getMarkerNodes_from_props[OF ok1 g]
  have len: "length cs = length ?ms" using G by blast
  have ids: "node_id (cs ! i) = u @ ''_'' @ string_of_nat i" if "i < length ?ms" for i
    using G that by (simp add: node)
  have mk: "MarkerNode_is (Some (cs ! i)) \<and> marker (cs ! i) = ?ms ! i" if "i < length ?ms" for i
    using G that by simp
  have ok2: "\<forall>k n. nodes t2 k = Some n \<longrightarrow> node_ok k n" using G by blast
  have rc2: "root_children t2 = root_children t1" using G by blast
  have cids: "map node_id cs = map (\<lambda>i. u @ ''_'' @ string_of_nat i) [0..<length ?ms]"
    by (rule nth_equalityI) (simp_all add: len ids)
  have "inj_on (\<lambda>i. u @ ''_'' @ string_of_nat i) (set [0..<length ?ms])"
    by (rule inj_onI) (simp add: string_of_nat_inj)
  then have dist: "distinct (map node_id cs)"
    unfolding cids by (simp add: distinct_map)
  have notin: "u \<notin> node_id ` set cs"
  proof
    assume "u \<in> node_id ` set cs"
    then have "u \<in> set (map node_id cs)" by simp
    then show False unfolding cids by auto
  qed
  let ?F = "fold (\<lambda>c m. m(node_id c \<mapsto> c)) cs base"
  have ns: "nodes (refreshMarkerInfo env during t u) = ?F"
    unfolding r by (simp add: fireChanged_def)
  have rc: "root_children (refreshMarkerInfo env during t u) = root_children t1"
    unfolding r by (simp add: fireChanged_def rc2)
  have Fu: "?F u = Some parent'"
    using fold_upd_other[OF notin, of base] by (simp add: base_def)
  have Fc: "?F (node_id (cs ! i)) = Some (cs ! i)" if "i < length ?ms" for i
    using fold_upd_hit[OF dist, of "cs ! i" base] that len by simp
  have base_ok: "\<forall>k n. base k = Some n \<longrightarrow> node_ok k n"
  proof (intro allI impI)
    fix k' n' assume b: "base k' = Some n'"
    show "node_ok k' n'"
    proof (cases "k' = u")
      case True
      with b have "n' = parent'" by (simp add: base_def)
      with True show ?thesis by (simp add: node_ok_def parent'_def)
    next
      case False
      with b have "fold (\<lambda>c m. m(c := None)) old (nodes t2) k' = Some n'"
        by (simp add: base_def)
      then have "nodes t2 k' = Some n'" by (rule fold_del_sub)
      with ok2 show ?thesis by blast
    qed
  qed
  have cs_ok: "\<forall>c \<in> set cs. node_ok (node_id c) c"
  proof
    fix c assume "c \<in> set cs"
    then obtain i where "i < length cs" "c = cs ! i"
      by (auto simp: in_set_conv_nth)
    with mk[of i] len have "MarkerNode_is (Some c)" by simp
    then show "node_ok (node_id c) c"
      by (simp add: node_ok_def marker_not_info)
  qed
  have F_ok: "\<forall>k n. ?F k = Some n \<longrightarrow> node_ok k n"
    using fold_upd_ok[OF base_ok cs_ok] by blast
  have tok: "tree_ok (refreshMarkerInfo env during t u)"
    unfolding tree_ok_def ns rc using a(1) F_ok by blast
  have inroot: "u \<in> set (root_children (refreshMarkerInfo env during t u))"
    unfolding rc by (rule a(2))
  have kids: "\<forall>i < length ?ms.
      \<exists>c. getNode (refreshMarkerInfo env during t u) (children parent' ! i) = Some c \<and>
          MarkerNode_is (Some c) \<and> marker c = ?ms ! i"
  proof (intro allI impI)
    fix i assume i: "i < length ?ms"
    have "children parent' ! i = node_id (cs ! i)"
      using i len by (simp add: parent'_def)
    with Fc[OF i] mk[OF i] show "\<exists>c. getNode (refreshMarkerInfo env during t u) (children parent' ! i) = Some c \<and>
          MarkerNode_is (Some c) \<and> marker c = ?ms ! i"
      unfolding getNode_def ns by simp
  qed
  have P: "getNode (refreshMarkerInfo env during t u) u = Some parent' \<and>
        MarkerInfoNode_is (Some parent') \<and> node_uri parent' = u \<and>
        numberOfMarkers parent' = length ?ms \<and>
        children parent' = map (\<lambda>i. u @ ''_'' @ string_of_nat i) [0..<length ?ms] \<and>
        distinct (children parent')"
    using Fu dist cids unfolding getNode_def ns by (simp add: parent'_def)
  from tok inroot P kids show ?thesis by blast
qed

lemma string_of_nat_0: "string_of_nat 0 = ''0''"
  by code_simp

text \<open>
  What a call achieves, measured against the markers it read at its start, when the
  events during its pause leave a tree the code keeps. With no markers, a per-file
  node that the tree knows under the identifier of the URI is gone. Otherwise the
  root has a child for the URI, a per-file node whose \<open>numberOfMarkers\<close> is the
  number of those markers and whose children are one leaf per marker, in order.
\<close>

lemma refreshMarkerInfo_on_known_node:
  assumes "tree_ok t" and "tree_ok (during t)"
  shows "tree_ok (refreshMarkerInfo env during t u) \<and>
    (findMarkers env u = [] \<longrightarrow> MarkerInfoNode_is (getNode t u) \<longrightarrow>
       u \<notin> set (root_children (refreshMarkerInfo env during t u)) \<and>
       getNode (refreshMarkerInfo env during t u) u = None) \<and>
    (findMarkers env u \<noteq> [] \<longrightarrow>
       u \<in> set (root_children (refreshMarkerInfo env during t u)) \<and>
       (\<exists>node. getNode (refreshMarkerInfo env during t u) u = Some node \<and>
          MarkerInfoNode_is (Some node) \<and> node_uri node = u \<and>
          numberOfMarkers node = length (findMarkers env u) \<and>
          children node = map (\<lambda>i. u @ ''_'' @ string_of_nat i) [0..<length (findMarkers env u)] \<and>
          distinct (children node) \<and>
          (\<forall>i < length (findMarkers env u).
             \<exists>c. getNode (refreshMarkerInfo env during t u) (children node ! i) = Some c \<and>
                 MarkerNode_is (Some c) \<and> marker c = findMarkers env u ! i)))"
proof (cases "findMarkers env u = []")
  case True
  with refresh_empty[where during=during, OF assms(1) True] show ?thesis by blast
next
  case False
  with refresh_nonempty[where during=during and t=t, OF assms False] show ?thesis by blast
qed

text \<open>
  Two runs from the empty tree, each on its own without a pause: the file
  \<open>file:///a_0\<close> gets a marker and is refreshed, then the file \<open>file:///a\<close>
  gets a marker and is refreshed.
\<close>

lemmas refresh_eval = refreshMarkerInfo_def table_env_def new_MarkerTree_def getNode_def Let_def
      createMarkerInfo_def addChild_def getMarkerNodes_def createMarkerNode_def
      setChildren_def removeNode_def removeChild_def fireChanged_def string_of_nat_0

lemma shadow_step1:
  "refreshMarkerInfo (table_env [(''file:///a_0'', [''m0''])]) (\<lambda>t. t) new_MarkerTree ''file:///a_0''
   = \<lparr>root_children = [''file:///a_0''],
      nodes = [''file:///a_0'' \<mapsto>
                 MarkerInfoNode ''file:///a_0'' ''file:///a_0'' ''file:///a_0'' ''file-icon''
                   ''file:///'' [''file:///a_0_0''] 1 True False,
               ''file:///a_0_0'' \<mapsto>
                 MarkerNode ''file:///a_0_0'' ''marker'' ''file:///a_0'' False ''file:///a_0'' ''m0''],
      changed = 1\<rparr>"
  by (simp add: refresh_eval)

lemma shadow_step2:
  "refreshMarkerInfo (table_env [(''file:///a_0'', [''m0'']), (''file:///a'', [''m1''])]) (\<lambda>t. t)
     \<lparr>root_children = [''file:///a_0''],
      nodes = [''file:///a_0'' \<mapsto>
                 MarkerInfoNode ''file:///a_0'' ''file:///a_0'' ''file:///a_0'' ''file-icon''
                   ''file:///'' [''file:///a_0_0''] 1 True False,
               ''file:///a_0_0'' \<mapsto>
                 MarkerNode ''file:///a_0_0'' ''marker'' ''file:///a_0'' False ''file:///a_0'' ''m0''],
      changed = 1\<rparr>
     ''file:///a''
   = \<lparr>root_children = [''file:///a_0'', ''file:///a''],
      nodes = [''file:///a_0'' \<mapsto>
                 MarkerInfoNode ''file:///a_0'' ''file:///a_0'' ''file:///a_0'' ''file-icon''
                   ''file:///'' [''file:///a_0_0''] 1 True False,
               ''file:///a_0_0'' \<mapsto>
                 MarkerNode ''file:///a_0_0'' ''marker'' ''file:///a_0'' False ''file:///a_0'' ''m0'',
               ''file:///a'' \<mapsto>
                 MarkerInfoNode ''file:///a'' ''file:///a'' ''file:///a'' ''file-icon''
                   ''file:///'' [''file:///a_0''] 1 True False,
               ''file:///a_0'' \<mapsto>
                 MarkerNode ''file:///a_0'' ''marker'' ''file:///a'' False ''file:///a'' ''m1''],
      changed = 2\<rparr>"
  by (simp add: refresh_eval)

text \<open>
  C3. The identifier of leaf 0 of the file \<open>file:///a\<close> is \<open>file:///a_0\<close>, the
  identifier of the per-file node of the file \<open>file:///a_0\<close>. After the two runs
  above the tree knows the leaf under that identifier. When the store then holds no
  markers for \<open>file:///a_0\<close> and that URI is refreshed, the call finds the leaf
  where it looks for the per-file node and leaves the tree as it is: the per-file node
  of \<open>file:///a_0\<close> is still a child of the root.
\<close>

theorem refreshMarkerInfo_keeps_shadowed_node:
  "findMarkers (table_env [(''file:///a'', [''m1''])]) ''file:///a_0'' = [] \<and>
   root_children
     (refreshMarkerInfo (table_env [(''file:///a_0'', [''m0''])]) (\<lambda>t. t)
        new_MarkerTree ''file:///a_0'') = [''file:///a_0''] \<and>
   MarkerInfoNode_is
     (getNode
        (refreshMarkerInfo (table_env [(''file:///a_0'', [''m0''])]) (\<lambda>t. t)
           new_MarkerTree ''file:///a_0'')
        ''file:///a_0'') \<and>
   getNode
     (refreshMarkerInfo
        (table_env [(''file:///a_0'', [''m0'']), (''file:///a'', [''m1''])]) (\<lambda>t. t)
        (refreshMarkerInfo (table_env [(''file:///a_0'', [''m0''])]) (\<lambda>t. t)
           new_MarkerTree ''file:///a_0'')
        ''file:///a'')
     ''file:///a_0''
     = Some (MarkerNode ''file:///a_0'' ''marker'' ''file:///a'' False ''file:///a'' ''m1'') \<and>
   refreshMarkerInfo (table_env [(''file:///a'', [''m1''])]) (\<lambda>t. t)
     (refreshMarkerInfo
        (table_env [(''file:///a_0'', [''m0'']), (''file:///a'', [''m1''])]) (\<lambda>t. t)
        (refreshMarkerInfo (table_env [(''file:///a_0'', [''m0''])]) (\<lambda>t. t)
           new_MarkerTree ''file:///a_0'')
        ''file:///a'')
     ''file:///a_0''
     = refreshMarkerInfo
        (table_env [(''file:///a_0'', [''m0'']), (''file:///a'', [''m1''])]) (\<lambda>t. t)
        (refreshMarkerInfo (table_env [(''file:///a_0'', [''m0''])]) (\<lambda>t. t)
           new_MarkerTree ''file:///a_0'')
        ''file:///a'' \<and>
   root_children
     (refreshMarkerInfo (table_env [(''file:///a'', [''m1''])]) (\<lambda>t. t)
        (refreshMarkerInfo
           (table_env [(''file:///a_0'', [''m0'']), (''file:///a'', [''m1''])]) (\<lambda>t. t)
           (refreshMarkerInfo (table_env [(''file:///a_0'', [''m0''])]) (\<lambda>t. t)
              new_MarkerTree ''file:///a_0'')
           ''file:///a'')
        ''file:///a_0'')
     = [''file:///a_0'', ''file:///a'']"
proof -
  let ?t1 = "refreshMarkerInfo (table_env [(''file:///a_0'', [''m0''])]) (\<lambda>t. t)
               new_MarkerTree ''file:///a_0''"
  let ?t2 = "refreshMarkerInfo
               (table_env [(''file:///a_0'', [''m0'']), (''file:///a'', [''m1''])]) (\<lambda>t. t)
               ?t1 ''file:///a''"
  let ?t3 = "refreshMarkerInfo (table_env [(''file:///a'', [''m1''])]) (\<lambda>t. t) ?t2 ''file:///a_0''"
  have m: "findMarkers (table_env [(''file:///a'', [''m1''])]) ''file:///a_0'' = []"
    by (simp add: table_env_def)
  have r1: "root_children ?t1 = [''file:///a_0'']"
    and i1: "MarkerInfoNode_is (getNode ?t1 ''file:///a_0'')"
    unfolding shadow_step1 by (simp_all add: getNode_def)
  have g2: "getNode ?t2 ''file:///a_0''
            = Some (MarkerNode ''file:///a_0'' ''marker'' ''file:///a'' False ''file:///a'' ''m1'')"
    and r2: "root_children ?t2 = [''file:///a_0'', ''file:///a'']"
    unfolding shadow_step1 shadow_step2 by (simp_all add: getNode_def)
  have t3: "?t3 = ?t2"
    using m g2 by (simp add: refreshMarkerInfo_def Let_def)
  from m r1 i1 g2 t3 r2 show ?thesis by simp
qed

text \<open>
  A change during the pause. The store holds one marker for \<open>file:///a\<close> when the
  call starts. While the call awaits the new per-file node the store loses the marker
  and the URI is refreshed for that, which finds nothing to remove. The first call
  then goes on with the marker it read: at its completion the store holds no markers
  for the URI, and the tree has a per-file node for it with one marker.
\<close>

lemma refreshMarkerInfo_stale_after_await:
  "findMarkers (table_env []) ''file:///a'' = [] \<and>
   refreshMarkerInfo (table_env []) (\<lambda>t. t) new_MarkerTree ''file:///a'' = new_MarkerTree \<and>
   root_children
     (refreshMarkerInfo (table_env [(''file:///a'', [''m0''])])
        (\<lambda>t. refreshMarkerInfo (table_env []) (\<lambda>t. t) t ''file:///a'')
        new_MarkerTree ''file:///a'') = [''file:///a''] \<and>
   map_option numberOfMarkers
     (getNode
        (refreshMarkerInfo (table_env [(''file:///a'', [''m0''])])
           (\<lambda>t. refreshMarkerInfo (table_env []) (\<lambda>t. t) t ''file:///a'')
           new_MarkerTree ''file:///a'')
        ''file:///a'') = Some 1"
  by (simp add: refresh_eval)

end
